theory Spec2Isabelle
  imports Complex_Main "HOL-Library.Log_Nat"
begin

section \<open>The JavaScript fragment used by app.js\<close>

text \<open>
  The dashboard of \<^verbatim>\<open>src/app.js\<close> is glue around a handful of runtime primitives. The
  primitives are modelled here once, the functions of the file below them.

  Numbers. A JavaScript number is a double. A finite double is modelled by the rational
  number it denotes (there is one zero), and the results of division, subtraction and
  multiplication are rounded to the nearest double, ties to even (\<open>round_double\<close> below).
  The remainder operator, \<^verbatim>\<open>Math.floor\<close>, \<^verbatim>\<open>toFixed\<close> and a division by a power of two
  are exact on doubles and are computed exactly. \<^verbatim>\<open>Math.log\<close> is approximated by the
  implementation; how it is taken is said at \<open>formatBytes\<close>.

  Strings. A string is a \<^typ>\<open>string\<close>: the code units below 256.
\<close>

datatype error = TypeError | RangeError | AxiosError

text \<open>A number: a finite value, or one of the three values that are not finite.\<close>

datatype jsnum = Fin rat | PInf | NInf | NaN

text \<open>
  A value. An object is the list of its own enumerable properties in enumeration order;
  its keys are distinct. Functions and symbols do not occur: every object of the program
  is an object literal, a value the host reports, or parsed JSON.
\<close>

datatype jsval =
    JUndefined
  | JNull
  | JBool bool
  | JNum jsnum
  | JStr string
  | JArr "jsval list"
  | JObj "(string \<times> jsval) list"

definition bind_err :: "error + 'a \<Rightarrow> ('a \<Rightarrow> error + 'b) \<Rightarrow> error + 'b" where
  "bind_err r f = (case r of Inl e \<Rightarrow> Inl e | Inr v \<Rightarrow> f v)"

subsection \<open>Number to string\<close>

definition digit_char :: "nat \<Rightarrow> char" where
  "digit_char d = ''0123456789'' ! (d mod 10)"

text \<open>The digits of the decimal representation of a natural number, most significant first.\<close>

fun digits :: "nat \<Rightarrow> string" where
  "digits n = (if n < 10 then [digit_char n] else digits (n div 10) @ [digit_char (n mod 10)])"

definition is_integral :: "rat \<Rightarrow> bool" where
  "is_integral x = (x = of_int \<lfloor>x\<rfloor>)"

text \<open>
  \<^verbatim>\<open>Number::toString\<close>, as a template literal and string concatenation apply it. An
  integral value of magnitude below \<open>2^53\<close> is written as its decimal numeral, with a
  minus sign when negative: its shortest digits that read back as the same double are all
  its digits. Every other finite number (a fraction, or an integer from \<open>2^53\<close> on, which is
  written with its shortest digits and zeros, or in exponent notation) is rendered by the
  runtime's shortest-round-trip printer, which is a parameter \<open>exo\<close> of the model.
\<close>

definition NumberToString :: "(rat \<Rightarrow> string) \<Rightarrow> rat \<Rightarrow> string" where
  "NumberToString exo x =
     (if is_integral x \<and> \<bar>x\<bar> < 2 ^ 53
      then (if x < 0 then ''-'' else '''') @ digits (nat \<bar>\<lfloor>x\<rfloor>\<bar>)
      else exo x)"

fun NumToString :: "(rat \<Rightarrow> string) \<Rightarrow> jsnum \<Rightarrow> string" where
  "NumToString exo (Fin x) = NumberToString exo x"
| "NumToString exo PInf = ''Infinity''"
| "NumToString exo NInf = ''-Infinity''"
| "NumToString exo NaN = ''NaN''"

subsection \<open>Double precision\<close>

text \<open>
  \<open>binary_exponent x\<close> is the exponent \<open>e\<close> with \<open>2^e \<le> |x| < 2^(e+1)\<close>, computed from the bit
  lengths of the numerator and the denominator.
\<close>

definition binary_exponent :: "rat \<Rightarrow> int" where
  "binary_exponent x =
     (let (a, b) = quotient_of \<bar>x\<bar>;
          e = int (floorlog 2 (nat a)) - int (floorlog 2 (nat b))
      in if 2 powi e \<le> \<bar>x\<bar> then e else e - 1)"

text \<open>Rounding to the nearest integer, a tie to the even one.\<close>

definition round_half_even :: "rat \<Rightarrow> int" where
  "round_half_even z =
     (let n = \<lfloor>z\<rfloor>;
          r = z - of_int n
      in if r < 1 / 2 then n
         else if 1 / 2 < r then n + 1
         else if even n then n else n + 1)"

text \<open>
  The doubles next to \<open>x\<close> are the multiples of \<open>quantum x\<close>: a significand has 53 bits, so
  the quantum is \<open>2^(e - 52)\<close>, and \<open>2^(-1074)\<close> in the subnormal range.
\<close>

definition quantum :: "rat \<Rightarrow> rat" where
  "quantum x = 2 powi (max (binary_exponent x) (- 1022) - 52)"

text \<open>The nearest binary64 value, a tie to the even significand, before overflow.\<close>

definition round_double :: "rat \<Rightarrow> rat" where
  "round_double x =
     (if x = 0 then 0 else quantum x * of_int (round_half_even (x / quantum x)))"

text \<open>A rounded magnitude of \<open>2^1024\<close> or more overflows to an infinity.\<close>

definition double_of :: "rat \<Rightarrow> jsnum" where
  "double_of x =
     (let y = round_double x
      in if 2 ^ 1024 \<le> \<bar>y\<bar> then (if y < 0 then NInf else PInf) else Fin y)"

text \<open>
  The operators \<^verbatim>\<open>-\<close>, \<^verbatim>\<open>*\<close> and \<^verbatim>\<open>/\<close> on numbers. The zero of the model is the positive
  zero, which is the zero the program divides by (a byte count).
\<close>

fun js_sub :: "jsnum \<Rightarrow> jsnum \<Rightarrow> jsnum" where
  "js_sub (Fin a) (Fin b) = double_of (a - b)"
| "js_sub NaN _ = NaN"
| "js_sub _ NaN = NaN"
| "js_sub PInf PInf = NaN"
| "js_sub NInf NInf = NaN"
| "js_sub PInf _ = PInf"
| "js_sub NInf _ = NInf"
| "js_sub (Fin a) PInf = NInf"
| "js_sub (Fin a) NInf = PInf"

fun js_mul :: "jsnum \<Rightarrow> jsnum \<Rightarrow> jsnum" where
  "js_mul (Fin a) (Fin b) = double_of (a * b)"
| "js_mul NaN _ = NaN"
| "js_mul _ NaN = NaN"
| "js_mul PInf (Fin b) = (if b = 0 then NaN else if 0 < b then PInf else NInf)"
| "js_mul NInf (Fin b) = (if b = 0 then NaN else if 0 < b then NInf else PInf)"
| "js_mul (Fin a) PInf = (if a = 0 then NaN else if 0 < a then PInf else NInf)"
| "js_mul (Fin a) NInf = (if a = 0 then NaN else if 0 < a then NInf else PInf)"
| "js_mul PInf PInf = PInf"
| "js_mul PInf NInf = NInf"
| "js_mul NInf PInf = NInf"
| "js_mul NInf NInf = PInf"

fun js_div :: "jsnum \<Rightarrow> jsnum \<Rightarrow> jsnum" where
  "js_div (Fin a) (Fin b) =
     (if b = 0 then (if a = 0 then NaN else if 0 < a then PInf else NInf)
      else double_of (a / b))"
| "js_div NaN _ = NaN"
| "js_div _ NaN = NaN"
| "js_div (Fin a) PInf = Fin 0"
| "js_div (Fin a) NInf = Fin 0"
| "js_div PInf (Fin b) = (if 0 \<le> b then PInf else NInf)"
| "js_div NInf (Fin b) = (if 0 \<le> b then NInf else PInf)"
| "js_div PInf PInf = NaN"
| "js_div PInf NInf = NaN"
| "js_div NInf PInf = NaN"
| "js_div NInf NInf = NaN"

subsection \<open>Number.prototype.toFixed\<close>

text \<open>
  \<^verbatim>\<open>x.toFixed(f)\<close> after ECMA-262: a \<^verbatim>\<open>RangeError\<close> unless \<open>0 \<le> f \<le> 100\<close>; a value
  that is not finite is printed by \<^verbatim>\<open>Number::toString\<close>. For a finite value the sign is
  split off; a magnitude of at least \<open>10^21\<close> is printed by \<^verbatim>\<open>Number::toString\<close>;
  otherwise \<open>n\<close> is the integer for which \<open>n / 10^f - x\<close> is closest to zero (the larger
  one of two), its digits are padded with zeros to \<open>f + 1\<close> characters, and a point is put
  before the last \<open>f\<close> of them.
\<close>

definition insert_point :: "nat \<Rightarrow> string \<Rightarrow> string" where
  "insert_point f m =
     (let k = length m;
          m' = (if k \<le> f then replicate (f + 1 - k) (CHR ''0'') @ m else m);
          k' = (if k \<le> f then f + 1 else k)
      in take (k' - f) m' @ ''.'' @ drop (k' - f) m')"

definition toFixed_finite :: "(rat \<Rightarrow> string) \<Rightarrow> rat \<Rightarrow> nat \<Rightarrow> string" where
  "toFixed_finite exo x0 f =
     (let s = (if x0 < 0 then ''-'' else '''');
          x = \<bar>x0\<bar>
      in if 10 ^ 21 \<le> x then s @ NumberToString exo x
         else
           let n = nat \<lfloor>x * 10 ^ f + 1 / 2\<rfloor>;
               m = (if n = 0 then ''0'' else digits n)
           in s @ (if f \<noteq> 0 then insert_point f m else m))"

definition toFixed :: "(rat \<Rightarrow> string) \<Rightarrow> jsnum \<Rightarrow> int \<Rightarrow> error + string" where
  "toFixed exo x fractionDigits =
     (if fractionDigits < 0 \<or> 100 < fractionDigits then Inl RangeError
      else case x of
             Fin q \<Rightarrow> Inr (toFixed_finite exo q (nat fractionDigits))
           | _ \<Rightarrow> Inr (NumToString exo x))"

subsection \<open>Conversions and property reads\<close>

text \<open>\<^verbatim>\<open>ToBoolean\<close>: the falsy values are undefined, null, false, zero, NaN and the empty string.\<close>

fun truthy :: "jsval \<Rightarrow> bool" where
  "truthy JUndefined = False"
| "truthy JNull = False"
| "truthy (JBool b) = b"
| "truthy (JNum (Fin x)) = (x \<noteq> 0)"
| "truthy (JNum NaN) = False"
| "truthy (JNum _) = True"
| "truthy (JStr s) = (s \<noteq> [])"
| "truthy (JArr _) = True"
| "truthy (JObj _) = True"

text \<open>\<^verbatim>\<open>a || b\<close> is \<open>a\<close> when \<open>a\<close> is truthy and \<open>b\<close> otherwise.\<close>

definition js_or :: "jsval \<Rightarrow> jsval \<Rightarrow> jsval" where
  "js_or a b = (if truthy a then a else b)"

text \<open>
  \<^verbatim>\<open>ToString\<close>, as a template literal applies it. A plain object prints as
  \<^verbatim>\<open>[object Object]\<close> through the \<^verbatim>\<open>toString\<close> it inherits; an own property of that name
  (not callable, the object being data) leaves no way to a primitive and the conversion
  throws a \<^verbatim>\<open>TypeError\<close>. An array prints its elements joined by commas, undefined and
  null as the empty text.
\<close>

fun ToString :: "(rat \<Rightarrow> string) \<Rightarrow> jsval \<Rightarrow> error + string"
  and join_elems :: "(rat \<Rightarrow> string) \<Rightarrow> jsval list \<Rightarrow> error + string" where
  "ToString exo JUndefined = Inr ''undefined''"
| "ToString exo JNull = Inr ''null''"
| "ToString exo (JBool b) = Inr (if b then ''true'' else ''false'')"
| "ToString exo (JNum n) = Inr (NumToString exo n)"
| "ToString exo (JStr s) = Inr s"
| "ToString exo (JArr xs) = join_elems exo xs"
| "ToString exo (JObj ps) =
     (if ''toString'' \<in> set (map fst ps) then Inl TypeError else Inr ''[object Object]'')"
| "join_elems exo [] = Inr []"
| "join_elems exo (x # xs) =
     bind_err (if x = JUndefined \<or> x = JNull then Inr [] else ToString exo x)
       (\<lambda>s. if xs = [] then Inr s
            else bind_err (join_elems exo xs) (\<lambda>r. Inr (s @ '','' @ r)))"

text \<open>
  Reading a property \<open>k\<close> of a value. Undefined and null have no properties: a
  \<^verbatim>\<open>TypeError\<close>. An object yields its own property, and undefined when it has none. The
  keys the program reads (\<^verbatim>\<open>city\<close>, \<^verbatim>\<open>region\<close>, \<^verbatim>\<open>country\<close>, \<^verbatim>\<open>loc\<close>, and the keys of
  its own object literals) are defined on no prototype and on no primitive wrapper, so every
  other value yields undefined for them.
\<close>

fun GetV :: "jsval \<Rightarrow> string \<Rightarrow> error + jsval" where
  "GetV JUndefined k = Inl TypeError"
| "GetV JNull k = Inl TypeError"
| "GetV (JObj ps) k = Inr (case map_of ps k of None \<Rightarrow> JUndefined | Some v \<Rightarrow> v)"
| "GetV _ k = Inr JUndefined"

subsection \<open>JSON.stringify\<close>

definition hex_char :: "nat \<Rightarrow> char" where
  "hex_char d = ''0123456789abcdef'' ! (d mod 16)"

text \<open>\<^verbatim>\<open>QuoteJSONString\<close>: the quotation mark, the backslash and the control characters are escaped.\<close>

definition quote_char :: "char \<Rightarrow> string" where
  "quote_char c =
     (if c = CHR 0x22 then [CHR 0x5C, CHR 0x22]
      else if c = CHR 0x5C then [CHR 0x5C, CHR 0x5C]
      else if c = CHR 0x08 then [CHR 0x5C, CHR ''b'']
      else if c = CHR 0x09 then [CHR 0x5C, CHR ''t'']
      else if c = CHR 0x0A then [CHR 0x5C, CHR ''n'']
      else if c = CHR 0x0C then [CHR 0x5C, CHR ''f'']
      else if c = CHR 0x0D then [CHR 0x5C, CHR ''r'']
      else if (of_char c :: nat) < 0x20
        then [CHR 0x5C, CHR ''u'', CHR ''0'', CHR ''0'',
              hex_char ((of_char c :: nat) div 16), hex_char (of_char c)]
      else [c])"

definition QuoteJSONString :: "string \<Rightarrow> string" where
  "QuoteJSONString s = [CHR 0x22] @ concat (map quote_char s) @ [CHR 0x22]"

fun join_with :: "string \<Rightarrow> string list \<Rightarrow> string" where
  "join_with sep [] = []"
| "join_with sep [x] = x"
| "join_with sep (x # y # ys) = x @ sep @ join_with sep (y # ys)"

text \<open>
  The brackets around the members of an array or an object: nothing between them when
  there are no members, the members separated by commas when the gap is empty, and one
  member per line, indented by the current indentation plus the gap, otherwise.
\<close>

definition wrap_members :: "string \<Rightarrow> string \<Rightarrow> string \<Rightarrow> string \<Rightarrow> string list \<Rightarrow> string" where
  "wrap_members l r gap stepback members =
     (if members = [] then l @ r
      else if gap = [] then l @ join_with '','' members @ r
      else l @ [CHR 0x0A] @ (stepback @ gap) @
           join_with ('','' @ [CHR 0x0A] @ (stepback @ gap)) members @
           [CHR 0x0A] @ stepback @ r)"

text \<open>
  \<^verbatim>\<open>SerializeJSONProperty\<close>: \<open>None\<close> is the result undefined. A number that is not
  finite is written \<^verbatim>\<open>null\<close>, an undefined array element is written \<^verbatim>\<open>null\<close>, and a
  property whose value is undefined is left out.
\<close>

fun serialize :: "(rat \<Rightarrow> string) \<Rightarrow> string \<Rightarrow> string \<Rightarrow> jsval \<Rightarrow> string option"
  and serialize_elems :: "(rat \<Rightarrow> string) \<Rightarrow> string \<Rightarrow> string \<Rightarrow> jsval list \<Rightarrow> string list"
  and serialize_props :: "(rat \<Rightarrow> string) \<Rightarrow> string \<Rightarrow> string \<Rightarrow> (string \<times> jsval) list \<Rightarrow> string list"
  where
  "serialize exo gap ind JUndefined = None"
| "serialize exo gap ind JNull = Some ''null''"
| "serialize exo gap ind (JBool b) = Some (if b then ''true'' else ''false'')"
| "serialize exo gap ind (JNum n) =
     Some (case n of Fin x \<Rightarrow> NumberToString exo x | _ \<Rightarrow> ''null'')"
| "serialize exo gap ind (JStr s) = Some (QuoteJSONString s)"
| "serialize exo gap ind (JArr xs) =
     Some (wrap_members ''['' '']'' gap ind (serialize_elems exo gap (ind @ gap) xs))"
| "serialize exo gap ind (JObj ps) =
     Some (wrap_members ''{'' ''}'' gap ind (serialize_props exo gap (ind @ gap) ps))"
| "serialize_elems exo gap ind [] = []"
| "serialize_elems exo gap ind (x # xs) =
     (case serialize exo gap ind x of None \<Rightarrow> ''null'' | Some s \<Rightarrow> s)
       # serialize_elems exo gap ind xs"
| "serialize_props exo gap ind [] = []"
| "serialize_props exo gap ind (p # ps) =
     (case serialize exo gap ind (snd p) of
        None \<Rightarrow> serialize_props exo gap ind ps
      | Some s \<Rightarrow>
          (QuoteJSONString (fst p) @ '':'' @ (if gap = [] then [] else '' '') @ s)
            # serialize_props exo gap ind ps)"

text \<open>
  \<^verbatim>\<open>JSON.stringify(value, null, space)\<close> with a numeric \<open>space\<close>: the gap is that many
  spaces, at most ten. \<^verbatim>\<open>JSON.stringify(value)\<close> is the case \<open>space = 0\<close>. The result is a
  string, or undefined.
\<close>

definition JSON_stringify :: "(rat \<Rightarrow> string) \<Rightarrow> nat \<Rightarrow> jsval \<Rightarrow> jsval" where
  "JSON_stringify exo space v =
     (case serialize exo (replicate (min 10 space) (CHR '' '')) [] v of
        None \<Rightarrow> JUndefined
      | Some s \<Rightarrow> JStr s)"

text \<open>The keys that the serialisation of an object writes, in order.\<close>

definition written_keys :: "jsval \<Rightarrow> string list" where
  "written_keys v =
     (case v of JObj ps \<Rightarrow> map fst (filter (\<lambda>p. snd p \<noteq> JUndefined) ps) | _ \<Rightarrow> [])"

section \<open>Formatters\<close>

subsection \<open>formatBytes (app.js, lines 8 to 14)\<close>

text \<open>
  \<^verbatim>\<open>
  function formatBytes(bytes, decimal = 2) {
    if (bytes === 0) return '0 Bytes';
    const k = 1024;
    const sizes = ['Bytes', 'KB', 'MB', 'GB', 'TB'];
    const i = Math.floor(Math.log(bytes) / Math.log(k));
    return parseFloat((bytes / Math.pow(k, i))).toFixed(decimal) + ' ' + sizes[i];
  }
  \<close>
  The byte counts the program passes are the non-negative integers the host reports, so
  \<open>bytes\<close> is a \<^typ>\<open>nat\<close>. \<^verbatim>\<open>Math.floor(Math.log(bytes) / Math.log(k))\<close> is taken as the
  floor of the logarithm to the base \<open>k\<close>, computed on integers (\<open>floor_log_is_log\<close>
  below). The double quotient has the same floor except just below a power of \<open>k\<close> so
  large that the quotient is rounded up to the exponent: for the byte counts below \<open>2^53\<close>
  these are the three counts from \<open>1024^5 - 3\<close> to \<open>1024^5 - 1\<close>, where the source computes
  the index 5. Every statement below that names the unit of a count takes the count
  below these three. \<^verbatim>\<open>Math.pow(k, i)\<close> is a power of two, so the division is exact;
  \<^verbatim>\<open>parseFloat\<close> of a number is that number. An index past the end of \<^verbatim>\<open>sizes\<close> reads \<^verbatim>\<open>undefined\<close>,
  which the concatenation writes as the text \<^verbatim>\<open>undefined\<close>. The default of \<open>decimal\<close> is
  passed by the caller of the model.
\<close>

definition sizes :: "string list" where
  "sizes = [''Bytes'', ''KB'', ''MB'', ''GB'', ''TB'']"

definition floor_log :: "nat \<Rightarrow> nat \<Rightarrow> nat" where
  "floor_log k n = floorlog k n - 1"

definition formatBytes :: "(rat \<Rightarrow> string) \<Rightarrow> nat \<Rightarrow> int \<Rightarrow> error + string" where
  "formatBytes exo bytes decimal =
     (if bytes = 0 then Inr ''0 Bytes''
      else
        let k = 1024;
            i = floor_log k bytes
        in bind_err (toFixed exo (Fin (of_nat bytes / of_nat (k ^ i))) decimal)
             (\<lambda>v. Inr (v @ '' '' @ (if i < length sizes then sizes ! i else ''undefined''))))"

subsection \<open>formatTime (app.js, lines 17 to 23)\<close>

text \<open>
  \<^verbatim>\<open>
  function formatTime(seconds) {
    const days = Math.floor(seconds / (3600 * 24));
    const hours = Math.floor((seconds % (3600 * 24)) / 3600);
    const minutes = Math.floor((seconds % 3600) / 60);
    const remainingSeconds = Math.floor(seconds % 60);
    return `${days}d ${hours}h ${minutes}m ${remainingSeconds}s`;
  }
  \<close>
  The remainder operator takes the sign of the dividend:
  \<open>x % y = x - y * trunc (x / y)\<close>, computed exactly (the remainder of two doubles is a
  double). Each quotient is rounded to a double before \<^verbatim>\<open>Math.floor\<close> is taken.
\<close>

definition js_trunc :: "rat \<Rightarrow> int" where
  "js_trunc q = (if 0 \<le> q then \<lfloor>q\<rfloor> else \<lceil>q\<rceil>)"

definition js_rem :: "rat \<Rightarrow> rat \<Rightarrow> rat" where
  "js_rem x y = x - y * of_int (js_trunc (x / y))"

definition formatTime :: "(rat \<Rightarrow> string) \<Rightarrow> rat \<Rightarrow> string" where
  "formatTime exo seconds =
     (let days = \<lfloor>round_double (seconds / (3600 * 24))\<rfloor>;
          hours = \<lfloor>round_double (js_rem seconds (3600 * 24) / 3600)\<rfloor>;
          minutes = \<lfloor>round_double (js_rem seconds 3600 / 60)\<rfloor>;
          remainingSeconds = \<lfloor>js_rem seconds 60\<rfloor>
      in NumberToString exo (of_int days) @ ''d '' @
         NumberToString exo (of_int hours) @ ''h '' @
         NumberToString exo (of_int minutes) @ ''m '' @
         NumberToString exo (of_int remainingSeconds) @ ''s'')"

section \<open>The host\<close>

text \<open>
  What the modules \<^verbatim>\<open>os\<close> and \<^verbatim>\<open>process\<close> report, read once: a request is answered
  against one state of the host. The byte counts and the process id are whole numbers
  below \<open>2^53\<close>, the uptimes and load averages are doubles. \<^verbatim>\<open>os.cpus()\<close> is an array with one entry per logical
  core, \<^verbatim>\<open>os.userInfo()\<close> and \<^verbatim>\<open>os.networkInterfaces()\<close> are objects that the program
  passes on as they are, and \<^verbatim>\<open>process.env\<close> maps a variable that is set to its string.
\<close>

record cpu_entry =
  cpu_model :: string
  cpu_speed :: nat

record host =
  os_cpus :: "cpu_entry list"
  os_arch :: string
  os_loadavg :: "rat list"
  os_totalmem :: nat
  os_freemem :: nat
  os_platform :: string
  os_type :: string
  os_release :: string
  os_hostname :: string
  os_uptime :: rat
  os_userInfo :: "(string \<times> jsval) list"
  os_networkInterfaces :: "(string \<times> jsval) list"
  process_pid :: nat
  process_title :: string
  process_version :: string
  process_uptime :: rat
  memoryUsage_rss :: nat
  memoryUsage_heapTotal :: nat
  memoryUsage_heapUsed :: nat
  memoryUsage_external :: nat
  process_env :: "string \<Rightarrow> string option"

definition env_var :: "host \<Rightarrow> string \<Rightarrow> jsval" where
  "env_var h name = (case process_env h name of None \<Rightarrow> JUndefined | Some s \<Rightarrow> JStr s)"

section \<open>Collectors\<close>

subsection \<open>getCpuInfo (app.js, lines 26 to 31)\<close>

text \<open>
  \<^verbatim>\<open>
  const getCpuInfo = () => ({
    model: os.cpus()[0].model,
    cores: os.cpus().length,
    architecture: os.arch(),
    loadAvg: os.loadavg(),
  });
  \<close>
  On an empty array \<^verbatim>\<open>os.cpus()[0]\<close> is undefined and reading its \<^verbatim>\<open>model\<close> throws.
\<close>

definition getCpuInfo :: "host \<Rightarrow> error + jsval" where
  "getCpuInfo h =
     (case os_cpus h of
        [] \<Rightarrow> Inl TypeError
      | c # _ \<Rightarrow>
          Inr (JObj [(''model'', JStr (cpu_model c)),
                     (''cores'', JNum (Fin (of_nat (length (os_cpus h))))),
                     (''architecture'', JStr (os_arch h)),
                     (''loadAvg'', JArr (map (\<lambda>x. JNum (Fin x)) (os_loadavg h)))]))"

subsection \<open>getMemoryInfo (app.js, lines 34 to 38)\<close>

text \<open>
  \<^verbatim>\<open>
  const getMemoryInfo = () => ({
    total: formatBytes(os.totalmem()),
    free: formatBytes(os.freemem()),
    usage: ((1 - os.freemem() / os.totalmem()) * 100).toFixed(2) + '%',
  });
  \<close>
  \<open>usage_number\<close> is the number \<^verbatim>\<open>(1 - os.freemem() / os.totalmem()) * 100\<close>: the quotient,
  the difference and the product are each rounded to a double. With a total of zero the
  quotient is \<^verbatim>\<open>NaN\<close> (zero by zero) or \<^verbatim>\<open>Infinity\<close>, and so the number is \<^verbatim>\<open>NaN\<close> or
  \<^verbatim>\<open>-Infinity\<close>.
\<close>

definition usage_number :: "nat \<Rightarrow> nat \<Rightarrow> jsnum" where
  "usage_number freemem totalmem =
     js_mul (js_sub (Fin 1) (js_div (Fin (of_nat freemem)) (Fin (of_nat totalmem)))) (Fin 100)"

definition getMemoryInfo :: "(rat \<Rightarrow> string) \<Rightarrow> host \<Rightarrow> error + jsval" where
  "getMemoryInfo exo h =
     bind_err (formatBytes exo (os_totalmem h) 2) (\<lambda>total_text.
     bind_err (formatBytes exo (os_freemem h) 2) (\<lambda>free_text.
     bind_err (toFixed exo (usage_number (os_freemem h) (os_totalmem h)) 2) (\<lambda>usage_text.
     Inr (JObj [(''total'', JStr total_text),
                (''free'', JStr free_text),
                (''usage'', JStr (usage_text @ ''%''))]))))"

subsection \<open>getOsInfo, getUserInfo, getNetworkInfo (app.js, lines 41 to 50 and 70)\<close>

definition getOsInfo :: "(rat \<Rightarrow> string) \<Rightarrow> host \<Rightarrow> jsval" where
  "getOsInfo exo h =
     JObj [(''platform'', JStr (os_platform h)),
           (''type'', JStr (os_type h)),
           (''release'', JStr (os_release h)),
           (''hostname'', JStr (os_hostname h)),
           (''uptime'', JStr (formatTime exo (os_uptime h)))]"

definition getUserInfo :: "host \<Rightarrow> jsval" where
  "getUserInfo h = JObj (os_userInfo h)"

definition getNetworkInfo :: "host \<Rightarrow> jsval" where
  "getNetworkInfo h = JObj (os_networkInterfaces h)"

subsection \<open>getProcessInfo (app.js, lines 53 to 67)\<close>

text \<open>
  \<^verbatim>\<open>
  const getProcessInfo = () => ({
    pid: process.pid,
    title: process.title,
    nodeVersion: process.version,
    uptime: formatTime(process.uptime()),
    memoryUsage: {
      rss: formatBytes(process.memoryUsage().rss),
      heapTotal: formatBytes(process.memoryUsage().heapTotal),
      heapUsed: formatBytes(process.memoryUsage().heapUsed),
      external: formatBytes(process.memoryUsage().external),
    },
    env: {
      NODE_ENV: process.env.NODE_ENV || 'Not set',
    },
  });
  \<close>
\<close>

definition getProcessInfo :: "(rat \<Rightarrow> string) \<Rightarrow> host \<Rightarrow> error + jsval" where
  "getProcessInfo exo h =
     bind_err (formatBytes exo (memoryUsage_rss h) 2) (\<lambda>rss.
     bind_err (formatBytes exo (memoryUsage_heapTotal h) 2) (\<lambda>heapTotal.
     bind_err (formatBytes exo (memoryUsage_heapUsed h) 2) (\<lambda>heapUsed.
     bind_err (formatBytes exo (memoryUsage_external h) 2) (\<lambda>external.
     Inr (JObj [(''pid'', JNum (Fin (of_nat (process_pid h)))),
                (''title'', JStr (process_title h)),
                (''nodeVersion'', JStr (process_version h)),
                (''uptime'', JStr (formatTime exo (process_uptime h))),
                (''memoryUsage'',
                   JObj [(''rss'', JStr rss),
                         (''heapTotal'', JStr heapTotal),
                         (''heapUsed'', JStr heapUsed),
                         (''external'', JStr external)]),
                (''env'',
                   JObj [(''NODE_ENV'',
                          js_or (env_var h ''NODE_ENV'') (JStr ''Not set''))])])))))"

section \<open>Geolocation (app.js, lines 73 to 86)\<close>

text \<open>
  \<^verbatim>\<open>
  async function getGeolocation() {
    try {
      const response = await axios.get('https://ipinfo.io/json');
      const { city, region, country, loc } = response.data;
      return {
        location: `${city}, ${region}, ${country}`,
        coordinates: loc, // This gives the "lat,long" format
      };
    } catch (error) {
      console.error("Error fetching geolocation data:", error);
      return { location: "Location not found", coordinates: "Not available" };
    }
  }
  \<close>
  The awaited call is modelled by how its promise settles. It is rejected when the request
  fails: no connection, a status outside 2xx, an error the socket or the client reports
  for a timeout. It is fulfilled with a response whose \<^verbatim>\<open>data\<close> is the body: the parsed
  value when the body is JSON, the text of the body otherwise. The call passes no timeout
  of its own. The message written to the console is not part of the result.
\<close>

datatype axios_result = Rejected | Fulfilled jsval

definition sentinel :: jsval where
  "sentinel = JObj [(''location'', JStr ''Location not found''),
                    (''coordinates'', JStr ''Not available'')]"

definition geo_try :: "(rat \<Rightarrow> string) \<Rightarrow> axios_result \<Rightarrow> error + jsval" where
  "geo_try exo r =
     (case r of
        Rejected \<Rightarrow> Inl AxiosError
      | Fulfilled data \<Rightarrow>
          bind_err (GetV data ''city'') (\<lambda>city.
          bind_err (GetV data ''region'') (\<lambda>region.
          bind_err (GetV data ''country'') (\<lambda>country.
          bind_err (GetV data ''loc'') (\<lambda>loc.
          bind_err (ToString exo city) (\<lambda>c.
          bind_err (ToString exo region) (\<lambda>r.
          bind_err (ToString exo country) (\<lambda>k.
          Inr (JObj [(''location'', JStr (c @ '', '' @ r @ '', '' @ k)),
                     (''coordinates'', loc)])))))))))"

definition getGeolocation :: "(rat \<Rightarrow> string) \<Rightarrow> axios_result \<Rightarrow> jsval" where
  "getGeolocation exo r = (case geo_try exo r of Inl e \<Rightarrow> sentinel | Inr g \<Rightarrow> g)"

section \<open>The HTML page (app.js, lines 89 to 145)\<close>

text \<open>
  \<^verbatim>\<open>buildHtmlPage(data, geoData)\<close> is one template literal. Its substitutions are evaluated
  from left to right: \<^verbatim>\<open>JSON.stringify(data.cpu, null, 2)\<close> and the same for \<^verbatim>\<open>memory\<close>,
  \<^verbatim>\<open>os\<close>, \<^verbatim>\<open>user\<close>, \<^verbatim>\<open>process\<close> and \<^verbatim>\<open>network\<close>, then \<^verbatim>\<open>geoData.location\<close> and
  \<^verbatim>\<open>geoData.coordinates\<close>; each result is converted to a string. The text between them is
  the text of the source, line by line.
\<close>

definition pretty_prop :: "(rat \<Rightarrow> string) \<Rightarrow> jsval \<Rightarrow> string \<Rightarrow> error + string" where
  "pretty_prop exo data k =
     bind_err (GetV data k) (\<lambda>v. ToString exo (JSON_stringify exo 2 v))"

definition text_prop :: "(rat \<Rightarrow> string) \<Rightarrow> jsval \<Rightarrow> string \<Rightarrow> error + string" where
  "text_prop exo obj k = bind_err (GetV obj k) (ToString exo)"

definition buildHtmlPage :: "(rat \<Rightarrow> string) \<Rightarrow> jsval \<Rightarrow> jsval \<Rightarrow> error + string" where
  \<open>buildHtmlPage exo data geoData =
     bind_err (pretty_prop exo data ''cpu'') (\<lambda>cpu_text.
     bind_err (pretty_prop exo data ''memory'') (\<lambda>memory_text.
     bind_err (pretty_prop exo data ''os'') (\<lambda>os_text.
     bind_err (pretty_prop exo data ''user'') (\<lambda>user_text.
     bind_err (pretty_prop exo data ''process'') (\<lambda>process_text.
     bind_err (pretty_prop exo data ''network'') (\<lambda>network_text.
     bind_err (text_prop exo geoData ''location'') (\<lambda>location_text.
     bind_err (text_prop exo geoData ''coordinates'') (\<lambda>coordinates_text.
     Inr (concat [
        ''\<newline>'',
        ''<!DOCTYPE html>\<newline>'',
        ''<html lang="en">\<newline>'',
        ''<head>\<newline>'',
        ''<meta charset="UTF-8">\<newline>'',
        ''<title>SysView Dashboard</title>\<newline>'',
        ''<style>\<newline>'',
        ''  body { font-family: Arial, sans-serif; background-color: #121212; color: #f0f0f0; margin: 20px; }\<newline>'',
        ''  h1 { color: #00bfff; }\<newline>'',
        ''  .section { background: #1e1e1e; padding: 20px; margin-bottom: 20px; border-radius: 8px; }\<newline>'',
        ''  pre { background: #2e2e2e; padding: 10px; border-radius: 5px; overflow-x: auto; }\<newline>'',
        ''</style>\<newline>'',
        ''</head>\<newline>'',
        ''<body>\<newline>'',
        ''<h1>SysView - System Information</h1>\<newline>'',
        ''\<newline>'',
        ''<div class="section">\<newline>'',
        ''  <h2>CPU Info</h2>\<newline>'',
        ''  <pre>'',
        cpu_text,
        ''</pre>\<newline>'',
        ''</div>\<newline>'',
        ''\<newline>'',
        ''<div class="section">\<newline>'',
        ''  <h2>Memory Info</h2>\<newline>'',
        ''  <pre>'',
        memory_text,
        ''</pre>\<newline>'',
        ''</div>\<newline>'',
        ''\<newline>'',
        ''<div class="section">\<newline>'',
        ''  <h2>OS Info</h2>\<newline>'',
        ''  <pre>'',
        os_text,
        ''</pre>\<newline>'',
        ''</div>\<newline>'',
        ''\<newline>'',
        ''<div class="section">\<newline>'',
        ''  <h2>User Info</h2>\<newline>'',
        ''  <pre>'',
        user_text,
        ''</pre>\<newline>'',
        ''</div>\<newline>'',
        ''\<newline>'',
        ''<div class="section">\<newline>'',
        ''  <h2>Process Info</h2>\<newline>'',
        ''  <pre>'',
        process_text,
        ''</pre>\<newline>'',
        ''</div>\<newline>'',
        ''\<newline>'',
        ''<div class="section">\<newline>'',
        ''  <h2>Network Info</h2>\<newline>'',
        ''  <pre>'',
        network_text,
        ''</pre>\<newline>'',
        ''</div>\<newline>'',
        ''\<newline>'',
        ''<div class="section">\<newline>'',
        ''  <h2>Geolocation Info</h2>\<newline>'',
        ''  <pre>Location: '',
        location_text,
        ''</pre>\<newline>'',
        ''  <pre>Coordinates: '',
        coordinates_text,
        ''</pre>\<newline>'',
        ''</div>\<newline>'',
        ''\<newline>'',
        ''</body>\<newline>'',
        ''</html>\<newline>'',
        ''  ''])))))))))\<close>

section \<open>The request handler (app.js, lines 148 to 188)\<close>

text \<open>
  \<^verbatim>\<open>
  const server = http.createServer(async (req, res) => {
    const parsedUrl = url.parse(req.url, true);
    if (parsedUrl.pathname === '/') {
      const geoData = await getGeolocation();
      const data = { cpu: getCpuInfo(), memory: getMemoryInfo(), os: getOsInfo(),
                     user: getUserInfo(), process: getProcessInfo(), network: getNetworkInfo() };
      res.writeHead(200, { 'Content-Type': 'text/html' });
      res.end(buildHtmlPage(data, geoData));
    } else if (parsedUrl.pathname === '/api') {
      const geoData = await getGeolocation();
      const data = { cpu: getCpuInfo(), memory: getMemoryInfo(), os: getOsInfo(),
                     user: getUserInfo(), process: getProcessInfo(), network: getNetworkInfo(),
                     geolocation: geoData };
      res.writeHead(200, { 'Content-Type': 'application/json' });
      res.end(JSON.stringify(data, null, 2));
    } else {
      res.statusCode = 404;
      res.setHeader('Content-Type', 'application/json');
      res.end(JSON.stringify({ error: "Route not found" }));
    }
  });
  \<close>
  A request carries its method and its URL. \<^verbatim>\<open>url.parse(req.url, true).pathname\<close> is the
  platform's parser, a parameter \<open>pathname_of\<close> of the model; it yields a string or null.
  The result of the handler is the response that was sent, or the error with which the
  handler's promise is rejected, in which case no response is completed.
\<close>

record request =
  req_method :: string
  req_url :: string

record response =
  statusCode :: nat
  headers :: "(string \<times> string) list"
  body :: string

text \<open>
  \<^verbatim>\<open>res.end(chunk)\<close>: a string is the body, undefined and null send no body, and any other
  value is refused with a \<^verbatim>\<open>TypeError\<close>.
\<close>

fun end_chunk :: "jsval \<Rightarrow> error + string" where
  "end_chunk (JStr s) = Inr s"
| "end_chunk JUndefined = Inr []"
| "end_chunk JNull = Inr []"
| "end_chunk _ = Inl TypeError"

definition handler ::
  "(rat \<Rightarrow> string) \<Rightarrow> (string \<Rightarrow> jsval) \<Rightarrow> host \<Rightarrow> axios_result \<Rightarrow> request \<Rightarrow> error + response"
  where
  "handler exo pathname_of h ax req =
     (let pathname = pathname_of (req_url req) in
      if pathname = JStr ''/'' then
        (let geoData = getGeolocation exo ax in
         bind_err (getCpuInfo h) (\<lambda>cpu.
         bind_err (getMemoryInfo exo h) (\<lambda>memory.
         bind_err (getProcessInfo exo h) (\<lambda>process.
         let data = JObj [(''cpu'', cpu),
                          (''memory'', memory),
                          (''os'', getOsInfo exo h),
                          (''user'', getUserInfo h),
                          (''process'', process),
                          (''network'', getNetworkInfo h)]
         in bind_err (buildHtmlPage exo data geoData) (\<lambda>page.
            Inr \<lparr>statusCode = 200,
                 headers = [(''Content-Type'', ''text/html'')],
                 body = page\<rparr>)))))
      else if pathname = JStr ''/api'' then
        (let geoData = getGeolocation exo ax in
         bind_err (getCpuInfo h) (\<lambda>cpu.
         bind_err (getMemoryInfo exo h) (\<lambda>memory.
         bind_err (getProcessInfo exo h) (\<lambda>process.
         let data = JObj [(''cpu'', cpu),
                          (''memory'', memory),
                          (''os'', getOsInfo exo h),
                          (''user'', getUserInfo h),
                          (''process'', process),
                          (''network'', getNetworkInfo h),
                          (''geolocation'', geoData)]
         in bind_err (end_chunk (JSON_stringify exo 2 data)) (\<lambda>text.
            Inr \<lparr>statusCode = 200,
                 headers = [(''Content-Type'', ''application/json'')],
                 body = text\<rparr>)))))
      else
        bind_err (end_chunk (JSON_stringify exo 0 (JObj [(''error'', JStr ''Route not found'')])))
          (\<lambda>text.
            Inr \<lparr>statusCode = 404,
                 headers = [(''Content-Type'', ''application/json'')],
                 body = text\<rparr>))"

text \<open>\<^verbatim>\<open>const PORT = process.env.PORT || 10000\<close> (app.js, line 191).\<close>

definition PORT :: "host \<Rightarrow> jsval" where
  "PORT h = js_or (env_var h ''PORT'') (JNum (Fin 10000))"

section \<open>Statements of the specification\<close>

text \<open>
  The duration text as the specification words it: the whole seconds are decomposed by
  floor division with 24 hours to the day, 60 minutes to the hour and 60 seconds to the
  minute, and all four components are written, each as a decimal numeral.
\<close>

definition duration_by_floor_division :: "rat \<Rightarrow> string" where
  "duration_by_floor_division seconds =
     (let t = nat \<lfloor>seconds\<rfloor>;
          d = t div (24 * 60 * 60);
          h = t div (60 * 60) mod 24;
          m = t div 60 mod 60;
          s = t mod 60
      in digits d @ ''d '' @ digits h @ ''h '' @ digits m @ ''m '' @ digits s @ ''s'')"

text \<open>
  A number rendered with exactly two decimal places, as the specification words the usage
  percentage: \<open>hundredths x\<close> is the number of hundredths nearest to the magnitude of \<open>x\<close>,
  written as its integer part, a point and two digits, after the sign.
\<close>

definition hundredths :: "rat \<Rightarrow> nat" where
  "hundredths x = nat \<lfloor>\<bar>x\<bar> * 100 + 1 / 2\<rfloor>"

definition two_decimal_places :: "rat \<Rightarrow> string" where
  "two_decimal_places x =
     (let n = hundredths x
      in (if x < 0 then ''-'' else '''') @ digits (n div 100) @ ''.'' @
         [digit_char (n div 10 mod 10), digit_char (n mod 10)])"

text \<open>
  A field that holds a byte count as a number: a non-negative integer. This is how the
  specification describes the total and free memory of a memory snapshot.
\<close>

definition integer_field :: "jsval \<Rightarrow> string \<Rightarrow> bool" where
  "integer_field obj k =
     (case GetV obj k of
        Inr (JNum (Fin x)) \<Rightarrow> is_integral x \<and> 0 \<le> x
      | _ \<Rightarrow> False)"

text \<open>
  The closed examples below need a printer for the numbers outside the decimal integers.
  None of them prints such a number, so the printer of the examples writes nothing.
\<close>

definition example_printer :: "rat \<Rightarrow> string" where
  "example_printer x = []"

text \<open>
  A host for the examples: one core, 1000 bytes of memory of which 250 are free, and
  \<^verbatim>\<open>NODE_ENV\<close> set to the empty string.
\<close>

definition example_host :: host where
  "example_host =
     \<lparr>os_cpus = [\<lparr>cpu_model = ''Example CPU'', cpu_speed = 2400\<rparr>],
      os_arch = ''x64'',
      os_loadavg = [0, 0, 0],
      os_totalmem = 1000,
      os_freemem = 250,
      os_platform = ''linux'',
      os_type = ''Linux'',
      os_release = ''6.1.0'',
      os_hostname = ''dashboard'',
      os_uptime = 90061,
      os_userInfo = [(''username'', JStr ''node'')],
      os_networkInterfaces = [],
      process_pid = 1,
      process_title = ''node'',
      process_version = ''v20.0.0'',
      process_uptime = 0,
      memoryUsage_rss = 1024,
      memoryUsage_heapTotal = 1536,
      memoryUsage_heapUsed = 0,
      memoryUsage_external = 0,
      process_env = (\<lambda>name. if name = ''NODE_ENV'' then Some [] else None)\<rparr>"

text \<open>
  Two bodies of the geolocation service: the answer for an address it cannot locate, which
  has none of the fields \<^verbatim>\<open>city\<close>, \<^verbatim>\<open>region\<close>, \<^verbatim>\<open>country\<close> and \<^verbatim>\<open>loc\<close>, and an answer
  that has them.
\<close>

definition bogon_body :: jsval where
  "bogon_body = JObj [(''ip'', JStr ''10.0.0.1''), (''bogon'', JBool True)]"

definition example_body :: jsval where
  "example_body =
     JObj [(''ip'', JStr ''8.8.8.8''),
           (''city'', JStr ''Mountain View''),
           (''region'', JStr ''California''),
           (''country'', JStr ''US''),
           (''loc'', JStr ''37.4056,-122.0775'')]"

section \<open>Arithmetic of the runtime primitives\<close>

declare digits.simps [simp del]

lemma floor_rat_numeral_div:
  "\<lfloor>numeral a / numeral b :: rat\<rfloor> = numeral a div numeral b"
  using floor_divide_of_int_eq [of "numeral a" "numeral b", where ?'a = rat] by simp

text \<open>\<open>floor_log\<close> is the floor of the quotient of the logarithms that the source computes.\<close>

lemma floor_log_is_log:
  assumes "0 < n" "1 < k"
  shows "int (floor_log k n) = \<lfloor>ln (real n) / ln (real k)\<rfloor>"
  using assms by (simp add: floor_log_def floorlog_def log_def)


lemma floor_rat_div_int:
  fixes x :: rat
  assumes "0 < n"
  shows "\<lfloor>x / of_int n\<rfloor> = \<lfloor>x\<rfloor> div n"
proof (rule floor_unique)
  let ?q = "\<lfloor>x\<rfloor> div n" and ?r = "\<lfloor>x\<rfloor> mod n"
  have split: "\<lfloor>x\<rfloor> = ?q * n + ?r" by simp
  have r: "0 \<le> ?r" "?r < n" using assms by simp_all
  have npos: "(0::rat) < of_int n" using assms by simp
  have "of_int (?q * n) \<le> (of_int \<lfloor>x\<rfloor> :: rat)"
    using r(1) split by (metis add.commute of_int_le_iff le_add_same_cancel2)
  also have "\<dots> \<le> x" by simp
  finally have "of_int ?q * of_int n \<le> x" by simp
  then show "of_int ?q \<le> x / of_int n"
    using npos by (simp add: pos_le_divide_eq)
  have i: "\<lfloor>x\<rfloor> + 1 \<le> ?q * n + n" using r(2) split by linarith
  have "x < of_int (\<lfloor>x\<rfloor> + 1)" by simp linarith
  also have "\<dots> \<le> of_int (?q * n + n)" using i by (simp only: of_int_le_iff)
  finally have "x < (of_int ?q + 1) * of_int n" by (simp add: algebra_simps)
  then show "x / of_int n < of_int ?q + 1"
    using npos by (simp add: pos_divide_less_eq)
qed

lemma digits_small: "n < 10 \<Longrightarrow> digits n = [digit_char n]"
  by (simp add: digits.simps)

lemma digits_step: "10 \<le> n \<Longrightarrow> digits n = digits (n div 10) @ [digit_char (n mod 10)]"
  by (subst digits.simps) simp

lemma digits_two: "10 \<le> n \<Longrightarrow> n < 100 \<Longrightarrow> digits n = [digit_char (n div 10), digit_char (n mod 10)]"
  by (simp add: digits_step digits_small)

lemma digits_hundred:
  assumes "100 \<le> n"
  shows "digits n = digits (n div 100) @ [digit_char (n div 10 mod 10), digit_char (n mod 10)]"
proof -
  have "10 \<le> n" "10 \<le> n div 10" using assms by simp_all
  then have "digits n = (digits (n div 10 div 10) @ [digit_char (n div 10 mod 10)]) @ [digit_char (n mod 10)]"
    by (simp add: digits_step)
  moreover have "n div 10 div 10 = n div 100" by (simp add: div_mult2_eq [symmetric])
  ultimately show ?thesis by simp
qed

lemma digits_nonempty: "digits n \<noteq> []"
  by (subst digits.simps) simp

lemma hundredths_near: "\<bar>of_nat (hundredths x) / 100 - \<bar>x\<bar>\<bar> \<le> 1 / 200"
proof -
  define y where "y = \<bar>x\<bar> * 100 + 1 / 2"
  have "0 \<le> y" by (simp add: y_def)
  then have "of_nat (hundredths x) = (of_int \<lfloor>y\<rfloor> :: rat)"
    by (simp add: hundredths_def y_def)
  moreover have "of_int \<lfloor>y\<rfloor> \<le> y" "y < of_int \<lfloor>y\<rfloor> + 1" by linarith+
  ultimately have "\<bar>of_nat (hundredths x) - \<bar>x\<bar> * 100\<bar> \<le> 1 / 2"
    unfolding y_def by linarith
  then show ?thesis by (simp add: field_simps abs_if split: if_splits)
qed

lemma insert_point_two:
  "insert_point 2 (digits n) =
     digits (n div 100) @ ''.'' @ [digit_char (n div 10 mod 10), digit_char (n mod 10)]"
proof -
  consider "n < 10" | "10 \<le> n" "n < 100" | "100 \<le> n" by linarith
  then show ?thesis
  proof cases
    case 1
    then show ?thesis by (simp add: insert_point_def digits_small digit_char_def)
  next
    case 2
    then show ?thesis
      by (simp add: insert_point_def digits_two digits_small digit_char_def numeral_3_eq_3)
  next
    case 3
    then show ?thesis by (simp add: insert_point_def digits_hundred digits_nonempty Let_def)
  qed
qed

lemma digits_zero_case: "(if n = 0 then ''0'' else digits n) = digits n"
  by (simp add: digits_small digit_char_def)

lemma toFixed_finite_two:
  assumes "\<bar>x\<bar> < 10 ^ 21"
  shows "toFixed_finite exo x 2 = two_decimal_places x"
  unfolding toFixed_finite_def Let_def digits_zero_case
  using assms
  by (simp add: two_decimal_places_def Let_def hundredths_def insert_point_two)

section \<open>Double precision\<close>

text \<open>
  Facts about \<open>round_double\<close>: the rounded value lies within half a quantum of the exact
  one, whole numbers below \<open>2^53\<close> are doubles, rounding is monotone at whole numbers, and
  the quotient of a double below \<open>2^53\<close> by a positive whole number has the same floor
  before and after rounding.
\<close>

lemma two_powi_pos [simp]: "(0::rat) < 2 powi e"
  by (simp add: power_int_def)

lemma two_powi_Suc: "(2::rat) powi (e + 1) = 2 * 2 powi e"
  by (simp add: power_int_add)

lemma two_powi_pred: "(2::rat) powi (e - 1) = 2 powi e / 2"
  by (simp add: power_int_diff)

lemma two_powi_diff_nat: "(2::rat) powi (int m - int n) = 2 ^ m / 2 ^ n"
  by (simp add: power_int_diff)

lemma binary_exponent_bounds:
  assumes "x \<noteq> 0"
  shows "2 powi (binary_exponent x) \<le> \<bar>x\<bar> \<and> \<bar>x\<bar> < 2 powi (binary_exponent x + 1)"
proof -
  obtain a b where ab: "quotient_of \<bar>x\<bar> = (a, b)" by (cases "quotient_of \<bar>x\<bar>")
  have b: "0 < b" using ab by (rule quotient_of_denom_pos)
  have x: "\<bar>x\<bar> = of_int a / of_int b" using ab by (rule quotient_of_div)
  have "0 < \<bar>x\<bar>" using assms by simp
  then have a: "0 < a" using b x by (simp add: zero_less_divide_iff)
  define la where "la = floorlog 2 (nat a)"
  define lb where "lb = floorlog 2 (nat b)"
  define e where "e = int la - int lb"
  have "2 ^ (la - 1) \<le> nat a \<and> nat a < 2 ^ la"
    unfolding la_def using a by (intro floorlog_bounds) simp_all
  then have "(of_nat (2 ^ (la - 1)) :: rat) \<le> of_nat (nat a)" "(of_nat (nat a) :: rat) < of_nat (2 ^ la)"
    by (simp_all only: of_nat_le_iff of_nat_less_iff)
  then have A: "(2::rat) ^ (la - 1) \<le> of_int a" "(of_int a :: rat) < 2 ^ la"
    using a by simp_all
  have "2 ^ (lb - 1) \<le> nat b \<and> nat b < 2 ^ lb"
    unfolding lb_def using b by (intro floorlog_bounds) simp_all
  then have "(of_nat (2 ^ (lb - 1)) :: rat) \<le> of_nat (nat b)" "(of_nat (nat b) :: rat) < of_nat (2 ^ lb)"
    by (simp_all only: of_nat_le_iff of_nat_less_iff)
  then have B: "(2::rat) ^ (lb - 1) \<le> of_int b" "(of_int b :: rat) < 2 ^ lb"
    using b by simp_all
  have la: "0 < la" unfolding la_def using a by (simp add: floorlog_def)
  have lb: "0 < lb" unfolding lb_def using b by (simp add: floorlog_def)
  have pa: "(2::rat) ^ la = 2 * 2 ^ (la - 1)" using la by (cases la) simp_all
  have pb: "(2::rat) ^ lb = 2 * 2 ^ (lb - 1)" using lb by (cases lb) simp_all
  have bpos: "(0::rat) < of_int b" using b by simp
  have E: "(2::rat) powi e = 2 ^ la / 2 ^ lb" unfolding e_def by (rule two_powi_diff_nat)
  have up: "\<bar>x\<bar> < 2 * 2 powi e"
  proof -
    have "of_int a * 2 ^ lb < (2::rat) ^ la * (2 * of_int b)"
    proof -
      have "of_int a * 2 ^ lb < (2::rat) ^ la * 2 ^ lb" using A(2) by simp
      also have "\<dots> = 2 ^ la * (2 * 2 ^ (lb - 1))" using pb by simp
      also have "\<dots> \<le> 2 ^ la * (2 * of_int b)" using B(1) by simp
      finally show ?thesis .
    qed
    then show ?thesis unfolding x E using bpos by (simp add: field_simps)
  qed
  have low: "2 powi e / 2 < \<bar>x\<bar>"
  proof -
    have "(2::rat) ^ la * of_int b < 2 * of_int a * 2 ^ lb"
    proof -
      have "(2::rat) ^ la * of_int b < 2 ^ la * 2 ^ lb" using B(2) by simp
      also have "\<dots> = (2 * 2 ^ (la - 1)) * 2 ^ lb" using pa by simp
      also have "\<dots> \<le> (2 * of_int a) * 2 ^ lb" using A(1) by simp
      finally show ?thesis by simp
    qed
    then show ?thesis unfolding x E using bpos by (simp add: field_simps)
  qed
  have be: "binary_exponent x = (if 2 powi e \<le> \<bar>x\<bar> then e else e - 1)"
    by (simp add: binary_exponent_def ab Let_def la_def lb_def e_def)
  show ?thesis
  proof (cases "2 powi e \<le> \<bar>x\<bar>")
    case True
    then show ?thesis using up be by (simp add: two_powi_Suc)
  next
    case False
    then show ?thesis using low be by (simp add: two_powi_pred)
  qed
qed

lemma two_powi_less_cancel:
  assumes "(2::rat) powi a < 2 powi b"
  shows "a < b"
proof (rule ccontr)
  assume "\<not> a < b"
  then have "b \<le> a" by simp
  then have "(2::rat) powi b \<le> 2 powi a" by (rule power_int_increasing) simp
  with assms show False by simp
qed

lemma binary_exponent_unique:
  assumes "2 powi e \<le> \<bar>x\<bar>" and "\<bar>x\<bar> < 2 powi (e + 1)"
  shows "binary_exponent x = e"
proof -
  have "0 < \<bar>x\<bar>" using assms(1) two_powi_pos [of e] by linarith
  then have "x \<noteq> 0" by simp
  then have b: "2 powi (binary_exponent x) \<le> \<bar>x\<bar>" "\<bar>x\<bar> < 2 powi (binary_exponent x + 1)"
    using binary_exponent_bounds by blast+
  have "(2::rat) powi e < 2 powi (binary_exponent x + 1)" using assms(1) b(2) by linarith
  then have 1: "e < binary_exponent x + 1" by (rule two_powi_less_cancel)
  have "(2::rat) powi (binary_exponent x) < 2 powi (e + 1)" using assms(2) b(1) by linarith
  then have 2: "binary_exponent x < e + 1" by (rule two_powi_less_cancel)
  from 1 2 show ?thesis by linarith
qed

lemma round_half_even_near: "\<bar>of_int (round_half_even z) - z\<bar> \<le> 1 / 2"
proof -
  have "of_int \<lfloor>z\<rfloor> \<le> z" "z < of_int \<lfloor>z\<rfloor> + 1" by linarith+
  then show ?thesis
    by (auto simp add: round_half_even_def Let_def)
qed

lemma round_half_even_ge:
  assumes "of_int m \<le> z"
  shows "m \<le> round_half_even z"
proof -
  have "m \<le> \<lfloor>z\<rfloor>" using assms by (simp add: le_floor_iff)
  then show ?thesis by (auto simp add: round_half_even_def Let_def)
qed

lemma round_half_even_le:
  assumes "z \<le> of_int m"
  shows "round_half_even z \<le> m"
proof (cases "z = of_int m")
  case True
  then show ?thesis by (simp add: round_half_even_def Let_def)
next
  case False
  then have "z < of_int m" using assms by simp
  then have "\<lfloor>z\<rfloor> < m" by (simp add: floor_less_iff)
  then show ?thesis by (auto simp add: round_half_even_def Let_def)
qed

lemma round_half_even_less:
  assumes "z < of_int m - 1 / 2"
  shows "round_half_even z < m"
proof -
  have f: "of_int \<lfloor>z\<rfloor> \<le> z" by simp
  have "z < of_int m" using assms by linarith
  then have l: "\<lfloor>z\<rfloor> < m" by (simp add: floor_less_iff)
  show ?thesis
  proof (cases "\<lfloor>z\<rfloor> + 1 < m")
    case True
    then show ?thesis by (auto simp add: round_half_even_def Let_def)
  next
    case False
    then have "m = \<lfloor>z\<rfloor> + 1" using l by linarith
    then have "z - of_int \<lfloor>z\<rfloor> < 1 / 2" using assms by simp
    then show ?thesis using l by (simp add: round_half_even_def Let_def)
  qed
qed

lemma round_double_quantum:
  "x \<noteq> 0 \<Longrightarrow> round_double x = quantum x * of_int (round_half_even (x / quantum x))"
  by (simp add: round_double_def)

lemma quantum_pos [simp]: "0 < quantum x"
  by (simp add: quantum_def)

lemma quantum_nonzero [simp]: "quantum x \<noteq> 0"
  by (simp add: quantum_def)

lemma round_double_error: "\<bar>round_double x - x\<bar> \<le> quantum x / 2"
proof (cases "x = 0")
  case True
  then show ?thesis using quantum_pos [of 0] by (simp add: round_double_def less_imp_le)
next
  case False
  let ?q = "quantum x"
  have "\<bar>of_int (round_half_even (x / ?q)) - x / ?q\<bar> \<le> 1 / 2" by (rule round_half_even_near)
  then have "\<bar>of_int (round_half_even (x / ?q)) - x / ?q\<bar> * ?q \<le> 1 / 2 * ?q"
    by (rule mult_right_mono) (simp add: less_imp_le)
  moreover have "\<bar>of_int (round_half_even (x / ?q)) - x / ?q\<bar> * ?q
      = \<bar>?q * of_int (round_half_even (x / ?q)) - x\<bar>"
  proof -
    have "\<bar>of_int (round_half_even (x / ?q)) - x / ?q\<bar> * ?q
        = \<bar>(of_int (round_half_even (x / ?q)) - x / ?q) * ?q\<bar>"
      using quantum_pos [of x] by (simp add: abs_mult abs_of_pos)
    also have "(of_int (round_half_even (x / ?q)) - x / ?q) * ?q
        = ?q * of_int (round_half_even (x / ?q)) - x"
      by (simp add: field_simps)
    finally show ?thesis .
  qed
  ultimately show ?thesis using False by (simp add: round_double_quantum)
qed

lemma two_powi_le_cancel:
  assumes "(2::rat) powi a \<le> 2 powi b"
  shows "a \<le> b"
proof (rule ccontr)
  assume "\<not> a \<le> b"
  then have "b < a" by simp
  then have "(2::rat) powi b < 2 powi a" by (rule power_int_strict_increasing) simp
  with assms show False by simp
qed

lemma quantum_reciprocal:
  assumes "x \<noteq> 0" and "\<bar>x\<bar> < 2 ^ 53"
  shows "\<exists>c. quantum x * 2 ^ c = 1"
proof -
  have "2 powi (binary_exponent x) \<le> \<bar>x\<bar>" using assms(1) binary_exponent_bounds by blast
  then have "(2::rat) powi (binary_exponent x) < 2 powi 53" using assms(2) by simp
  then have "binary_exponent x < 53" by (rule two_powi_less_cancel)
  then have "max (binary_exponent x) (- 1022) - 52 \<le> 0" by simp
  then obtain c where c: "max (binary_exponent x) (- 1022) - 52 = - int c"
    by (metis nat_0_le neg_0_le_iff_le minus_minus)
  have "quantum x * 2 ^ c = 1"
    unfolding quantum_def c by (simp add: power_int_minus)
  then show ?thesis ..
qed

lemma clamped_round_small:
  fixes y :: rat
  assumes "0 < y" and "binary_exponent y < E" and "E < 0"
  shows "(2::rat) powi (E - 52) * of_int (round_half_even (y / 2 powi (E - 52))) < 1"
proof -
  define q :: rat where "q = 2 powi (E - 52)"
  have qpos: "0 < q" by (simp add: q_def)
  have qE: "q * 2 ^ 52 = 2 powi E"
    unfolding q_def by (simp add: power_int_diff)
  have "y < 2 powi (binary_exponent y + 1)" using assms(1) binary_exponent_bounds [of y] by simp
  also have "\<dots> \<le> 2 powi E" using assms(2) by (intro power_int_increasing) simp_all
  finally have "y < q * 2 ^ 52" by (simp only: qE)
  then have "y / q < 2 ^ 52" using qpos by (simp add: pos_divide_less_eq mult.commute)
  then have "y / q \<le> of_int (2 ^ 52)" by simp
  then have "round_half_even (y / q) \<le> 2 ^ 52" by (rule round_half_even_le)
  then have "(of_int (round_half_even (y / q)) :: rat) \<le> of_int (2 ^ 52)"
    by (simp only: of_int_le_iff)
  then have "q * of_int (round_half_even (y / q)) \<le> q * of_int (2 ^ 52)"
    using qpos by (simp only: mult_le_cancel_left_pos)
  also have "q * of_int (2 ^ 52) = 2 powi E" using qE by simp
  also have "(2::rat) powi E < 2 powi 0" using assms(3) by (intro power_int_strict_increasing) simp_all
  finally show ?thesis by (simp add: q_def)
qed

lemma floor_round_double_div:
  fixes r :: rat and n m :: int
  assumes r0: "0 \<le> r" and n: "0 < n"
    and grid: "r = of_int m / 2 ^ j" and small: "r < 2 ^ 53 / 2 ^ j"
  shows "\<lfloor>round_double (r / of_int n)\<rfloor> = \<lfloor>r / of_int n\<rfloor>"
proof (cases "r = 0")
  case True
  then show ?thesis by (simp add: round_double_def)
next
  case False
  define y where "y = r / of_int n"
  define d where "d = \<lfloor>y\<rfloor>"
  have npos: "(0::rat) < of_int n" using n by simp
  have n1: "(1::rat) \<le> of_int n" using n by (simp add: int_one_le_iff_zero_less)
  have rpos: "0 < r" using r0 False by simp
  then have ypos: "0 < y" using npos by (simp add: y_def)
  then have ynz: "y \<noteq> 0" by simp
  have y_le_r: "y \<le> r"
  proof -
    have "r * 1 \<le> r * of_int n" using n1 r0 by (rule mult_left_mono)
    then show ?thesis using npos by (simp add: y_def pos_divide_le_eq)
  qed
  have p1: "(1::rat) \<le> 2 ^ j" by simp
  have "2 ^ 53 / 2 ^ j \<le> (2::rat) ^ 53 / 1"
    using p1 by (intro divide_left_mono) simp_all
  then have r53: "r < 2 ^ 53" using small by simp
  then have y53: "\<bar>y\<bar> < 2 ^ 53" using y_le_r ypos by simp
  define q where "q = quantum y"
  have qpos: "0 < q" by (simp add: q_def)
  obtain c where c: "q * 2 ^ c = 1"
    unfolding q_def using quantum_reciprocal [OF ynz y53] by blast
  have rd: "round_double y = q * of_int (round_half_even (y / q))"
    using ynz by (simp add: round_double_def q_def)
  have iq: "inverse q = 2 ^ c" using c by (rule inverse_unique)
  have yq: "z / q = z * 2 ^ c" for z by (simp add: divide_inverse iq)
  have scale: "q * of_int (k * 2 ^ c) = of_int k" for k
  proof -
    have "q * of_int (k * 2 ^ c) = of_int k * (q * 2 ^ c)" by (simp add: algebra_simps)
    then show ?thesis by (simp only: c mult_1_right)
  qed
  have d0: "of_int d \<le> y" "y < of_int d + 1" unfolding d_def by linarith+
  \<comment> \<open>the lower bound\<close>
  have "of_int (d * 2 ^ c) \<le> y / q"
  proof -
    have "of_int d * 2 ^ c \<le> y * 2 ^ c" using d0(1) by simp
    then show ?thesis by (simp add: yq)
  qed
  then have "d * 2 ^ c \<le> round_half_even (y / q)" by (rule round_half_even_ge)
  then have "(of_int (d * 2 ^ c) :: rat) \<le> of_int (round_half_even (y / q))"
    by (simp only: of_int_le_iff)
  then have "q * of_int (d * 2 ^ c) \<le> q * of_int (round_half_even (y / q))"
    using qpos by (simp only: mult_le_cancel_left_pos)
  then have lower: "of_int d \<le> round_double y" by (simp only: rd scale)
  \<comment> \<open>the upper bound\<close>
  have gap: "y \<le> of_int (d + 1) - 1 / (of_int n * 2 ^ j)"
  proof -
    have "r < of_int (d + 1) * of_int n"
      using d0(2) npos by (simp add: y_def pos_divide_less_eq)
    then have "of_int m / 2 ^ j < (of_int ((d + 1) * n) :: rat)" using grid by simp
    then have "(of_int m :: rat) < of_int ((d + 1) * n * 2 ^ j)"
      by (simp add: pos_divide_less_eq)
    then have "m < (d + 1) * n * 2 ^ j" by (simp only: of_int_less_iff)
    then have "m + 1 \<le> (d + 1) * n * 2 ^ j" by simp
    then have "(of_int (m + 1) :: rat) \<le> of_int ((d + 1) * n * 2 ^ j)"
      by (simp only: of_int_le_iff)
    then have "of_int m + 1 \<le> (of_int (d + 1) * of_int n * 2 ^ j :: rat)" by simp
    then have "of_int m / 2 ^ j + 1 / 2 ^ j \<le> (of_int (d + 1) * of_int n :: rat)"
      by (simp add: field_simps)
    then have "r \<le> of_int (d + 1) * of_int n - 1 / 2 ^ j" using grid by simp
    then have "r / of_int n \<le> (of_int (d + 1) * of_int n - 1 / 2 ^ j) / of_int n"
      using npos by (simp add: divide_right_mono)
    also have "\<dots> = of_int (d + 1) - 1 / (of_int n * 2 ^ j)"
      using npos by (simp add: field_simps)
    finally show ?thesis by (simp add: y_def)
  qed
  have upper: "round_double y < of_int (d + 1)"
  proof (cases "binary_exponent y < - 1022")
    case True
    then have m: "max (binary_exponent y) (- 1022) = - 1022" by simp
    have "round_double y < 1"
      unfolding rd q_def quantum_def m
      using ypos True by (intro clamped_round_small) simp_all
    moreover have "0 \<le> d" unfolding d_def using ypos by simp
    ultimately show ?thesis by simp
  next
    case False
    then have qv: "q = 2 powi (binary_exponent y - 52)" by (simp add: q_def quantum_def)
    have "2 powi (binary_exponent y) \<le> y" using ynz ypos binary_exponent_bounds [of y] by simp
    moreover have "q * 2 ^ 52 = 2 powi (binary_exponent y)"
      unfolding qv by (simp add: power_int_diff)
    ultimately have "q * 2 ^ 52 \<le> y" by simp
    also have "y < 2 ^ 53 / 2 ^ j / of_int n"
      unfolding y_def using small npos by (rule divide_strict_right_mono)
    finally have "q * 2 ^ 52 < 2 ^ 53 / (2 ^ j * of_int n)" by simp
    then have "q * (2 ^ j * of_int n) < 2"
      using npos by (simp add: field_simps)
    then have "q / 2 < 1 / (of_int n * 2 ^ j)"
      using npos by (simp add: field_simps)
    then have "y < of_int (d + 1) - q / 2" using gap by linarith
    then have "y / q < (of_int (d + 1) - q / 2) / q"
      using qpos by (simp add: divide_strict_right_mono)
    also have "(of_int (d + 1) - q / 2) / q = of_int ((d + 1) * 2 ^ c) - 1 / 2"
    proof -
      have "(of_int (d + 1) - q / 2) / q = of_int (d + 1) / q - (q / 2) / q"
        by (rule diff_divide_distrib)
      moreover have "(q / 2) / q = 1 / 2" using qpos by simp
      moreover have "of_int (d + 1) / q = of_int ((d + 1) * 2 ^ c)" by (simp add: yq)
      ultimately show ?thesis by simp
    qed
    finally have "round_half_even (y / q) < (d + 1) * 2 ^ c" by (rule round_half_even_less)
    then have "(of_int (round_half_even (y / q)) :: rat) < of_int ((d + 1) * 2 ^ c)"
      by (simp only: of_int_less_iff)
    then have "q * of_int (round_half_even (y / q)) < q * of_int ((d + 1) * 2 ^ c)"
      using qpos by (simp only: mult_less_cancel_left_pos)
    then show ?thesis by (simp only: rd scale)
  qed
  have "\<lfloor>round_double y\<rfloor> = d"
    using lower upper by (intro floor_unique) simp_all
  then show ?thesis by (simp add: y_def d_def)
qed

lemma round_half_even_of_int [simp]: "round_half_even (of_int k) = k"
  by (simp add: round_half_even_def)

lemma round_double_le_int:
  fixes x :: rat
  assumes "\<bar>x\<bar> < 2 ^ 53" and "x \<le> of_int k"
  shows "round_double x \<le> of_int k"
proof (cases "x = 0")
  case True
  then show ?thesis using assms(2) by (simp add: round_double_def)
next
  case False
  define q where "q = quantum x"
  have qpos: "0 < q" by (simp add: q_def)
  obtain c where c: "q * 2 ^ c = 1"
    unfolding q_def using quantum_reciprocal [OF False assms(1)] by blast
  have iq: "inverse q = 2 ^ c" using c by (rule inverse_unique)
  have scale: "q * of_int (i * 2 ^ c) = of_int i" for i
  proof -
    have "q * of_int (i * 2 ^ c) = of_int i * (q * 2 ^ c)" by (simp add: algebra_simps)
    then show ?thesis by (simp only: c mult_1_right)
  qed
  have "x * 2 ^ c \<le> of_int k * 2 ^ c" using assms(2) by simp
  then have "x / q \<le> of_int (k * 2 ^ c)" by (simp add: divide_inverse iq)
  then have "round_half_even (x / q) \<le> k * 2 ^ c" by (rule round_half_even_le)
  then have "(of_int (round_half_even (x / q)) :: rat) \<le> of_int (k * 2 ^ c)"
    by (simp only: of_int_le_iff)
  then have "q * of_int (round_half_even (x / q)) \<le> q * of_int (k * 2 ^ c)"
    using qpos by (simp only: mult_le_cancel_left_pos)
  then show ?thesis using False by (simp only: round_double_def q_def [symmetric] scale if_False)
qed

lemma round_double_ge_int:
  fixes x :: rat
  assumes "\<bar>x\<bar> < 2 ^ 53" and "of_int k \<le> x"
  shows "of_int k \<le> round_double x"
proof (cases "x = 0")
  case True
  then show ?thesis using assms(2) by (simp add: round_double_def)
next
  case False
  define q where "q = quantum x"
  have qpos: "0 < q" by (simp add: q_def)
  obtain c where c: "q * 2 ^ c = 1"
    unfolding q_def using quantum_reciprocal [OF False assms(1)] by blast
  have iq: "inverse q = 2 ^ c" using c by (rule inverse_unique)
  have scale: "q * of_int (i * 2 ^ c) = of_int i" for i
  proof -
    have "q * of_int (i * 2 ^ c) = of_int i * (q * 2 ^ c)" by (simp add: algebra_simps)
    then show ?thesis by (simp only: c mult_1_right)
  qed
  have "of_int k * 2 ^ c \<le> x * 2 ^ c" using assms(2) by simp
  then have "of_int (k * 2 ^ c) \<le> x / q" by (simp add: divide_inverse iq)
  then have "k * 2 ^ c \<le> round_half_even (x / q)" by (rule round_half_even_ge)
  then have "(of_int (k * 2 ^ c) :: rat) \<le> of_int (round_half_even (x / q))"
    by (simp only: of_int_le_iff)
  then have "q * of_int (k * 2 ^ c) \<le> q * of_int (round_half_even (x / q))"
    using qpos by (simp only: mult_le_cancel_left_pos)
  then show ?thesis using False by (simp only: round_double_def q_def [symmetric] scale if_False)
qed

text \<open>The whole numbers below \<open>2^53\<close> are doubles.\<close>

lemma round_double_of_int:
  assumes "\<bar>k\<bar> < 2 ^ 53"
  shows "round_double (of_int k) = of_int k"
proof -
  have "\<bar>of_int k :: rat\<bar> < 2 ^ 53"
    using assms by (metis of_int_abs of_int_less_iff of_int_numeral of_int_power)
  then have "round_double (of_int k) \<le> of_int k" "of_int k \<le> round_double (of_int k)"
    by (simp_all add: round_double_le_int round_double_ge_int)
  then show ?thesis by simp
qed

text \<open>A double below \<open>2^53\<close> lies on a grid \<open>2^(-j)\<close> that has fewer than \<open>2^53\<close> steps up to it.\<close>

lemma double_grid:
  fixes s :: rat
  assumes "round_double s = s" and "0 \<le> s" and "s < 2 ^ 53"
  shows "\<exists>m j. s = of_int m / 2 ^ j \<and> s < 2 ^ 53 / 2 ^ j"
proof (cases "s = 0")
  case True
  then have "s = of_int 0 / 2 ^ 0 \<and> s < 2 ^ 53 / 2 ^ 0" by simp
  then show ?thesis by blast
next
  case False
  define q where "q = quantum s"
  have qpos: "0 < q" by (simp add: q_def)
  have abs: "\<bar>s\<bar> < 2 ^ 53" using assms(2,3) by simp
  obtain c where c: "q * 2 ^ c = 1"
    unfolding q_def using quantum_reciprocal [OF False abs] by blast
  have qv: "q = 1 / 2 ^ c" using c by (simp add: field_simps)
  define m where "m = round_half_even (s / q)"
  have "s = q * of_int m"
    using assms(1) False by (simp add: round_double_def q_def m_def)
  then have 1: "s = of_int m / 2 ^ c" by (simp add: qv)
  have "\<bar>s\<bar> < 2 powi (binary_exponent s + 1)" using False binary_exponent_bounds by blast
  also have "\<dots> \<le> 2 powi (max (binary_exponent s) (- 1022) + 1)"
    by (intro power_int_increasing) simp_all
  also have "\<dots> = 2 ^ 53 * q"
    unfolding q_def quantum_def by (simp add: power_int_diff power_int_add)
  finally have "s < 2 ^ 53 / 2 ^ c" using assms(2) by (simp add: qv)
  with 1 show ?thesis by blast
qed

lemma js_rem_grid:
  fixes x :: rat
  assumes "0 \<le> x" and "0 < n" and "x = of_int m / 2 ^ j"
  shows "\<exists>m'. js_rem x (of_int n) = of_int m' / 2 ^ j"
    and "0 \<le> js_rem x (of_int n)" and "js_rem x (of_int n) \<le> x"
proof -
  have npos: "(0::rat) < of_int n" using assms(2) by simp
  have q0: "0 \<le> x / of_int n" using assms(1) npos by simp
  define k where "k = \<lfloor>x / of_int n\<rfloor>"
  have k0: "0 \<le> k" unfolding k_def using q0 by simp
  have r: "js_rem x (of_int n) = x - of_int n * of_int k"
    using q0 by (simp add: js_rem_def js_trunc_def k_def)
  have "x - of_int n * of_int k = of_int (m - n * k * 2 ^ j) / 2 ^ j"
    unfolding assms(3) by (simp add: field_simps)
  then have "js_rem x (of_int n) = of_int (m - n * k * 2 ^ j) / 2 ^ j" by (simp only: r)
  then show "\<exists>m'. js_rem x (of_int n) = of_int m' / 2 ^ j" ..
  have "of_int k \<le> x / of_int n" unfolding k_def by simp
  then have "of_int k * of_int n \<le> x" using npos by (simp add: pos_le_divide_eq)
  then show "0 \<le> js_rem x (of_int n)" using r by (simp add: mult.commute)
  have "0 \<le> of_int n * (of_int k :: rat)" using k0 npos by simp
  then show "js_rem x (of_int n) \<le> x" using r by simp
qed

lemma round_double_at:
  assumes "2 powi e \<le> \<bar>x\<bar>" and "\<bar>x\<bar> < 2 powi (e + 1)" and "- 1022 \<le> e"
  shows "round_double x = 2 powi (e - 52) * of_int (round_half_even (x / 2 powi (e - 52)))"
proof -
  have e: "binary_exponent x = e" using assms(1,2) by (rule binary_exponent_unique)
  have "0 < \<bar>x\<bar>" using assms(1) two_powi_pos [of e] by linarith
  then have "x \<noteq> 0" by simp
  moreover have "max e (- 1022) = e" using assms(3) by simp
  ultimately show ?thesis by (simp add: round_double_def quantum_def e)
qed

lemmas round_half_even_eval = round_half_even_def Let_def floor_rat_numeral_div

lemma quantum_bound:
  assumes "x \<noteq> 0"
  shows "quantum x \<le> \<bar>x\<bar> / 2 ^ 52 + 1 / 2 ^ 60"
proof (cases "binary_exponent x < - 1022")
  case True
  then have "max (binary_exponent x) (- 1022) - 52 \<le> - 60" by simp
  then have "(2::rat) powi (max (binary_exponent x) (- 1022) - 52) \<le> 2 powi (- 60)"
    by (intro power_int_increasing) simp_all
  also have "(2::rat) powi (- 60) = 1 / 2 ^ 60" by (simp add: power_int_minus field_simps)
  finally have "quantum x \<le> 1 / 2 ^ 60" by (simp only: quantum_def)
  moreover have "0 \<le> \<bar>x\<bar> / 2 ^ 52" by simp
  ultimately show ?thesis by linarith
next
  case False
  then have e: "- 1022 \<le> binary_exponent x" by simp
  have "quantum x = 2 powi (binary_exponent x - 52)" using e by (simp add: quantum_def)
  also have "\<dots> = 2 powi (binary_exponent x) / 2 ^ 52" by (simp add: power_int_diff)
  also have "\<dots> \<le> \<bar>x\<bar> / 2 ^ 52"
    using assms binary_exponent_bounds [of x] by (simp add: divide_right_mono)
  finally show ?thesis by simp
qed

lemma round_double_accuracy: "\<bar>round_double x - x\<bar> \<le> \<bar>x\<bar> / 2 ^ 53 + 1 / 2 ^ 61"
proof (cases "x = 0")
  case True
  then show ?thesis by (simp add: round_double_def)
next
  case False
  have "\<bar>round_double x - x\<bar> \<le> quantum x / 2" by (rule round_double_error)
  also have "\<dots> \<le> (\<bar>x\<bar> / 2 ^ 52 + 1 / 2 ^ 60) / 2"
    using quantum_bound [OF False] by simp
  also have "\<dots> = \<bar>x\<bar> / 2 ^ 53 + 1 / 2 ^ 61" by simp
  finally show ?thesis .
qed

lemma abs_triangle_three: "\<bar>x + y - z\<bar> \<le> \<bar>x\<bar> + \<bar>y\<bar> + \<bar>z :: rat\<bar>"
  by linarith

lemma round_double_unit:
  assumes "0 \<le> x" and "x \<le> of_int k" and "k < 2 ^ 53" 
  shows "0 \<le> round_double x \<and> round_double x \<le> of_int k"
proof -
  have "(of_int k :: rat) < 2 ^ 53"
    using assms(3) by (metis of_int_less_iff of_int_numeral of_int_power)
  then have a: "\<bar>x\<bar> < 2 ^ 53" using assms(1,2) by simp
  have "of_int 0 \<le> round_double x" using a by (rule round_double_ge_int) (use assms(1) in simp)
  moreover have "round_double x \<le> of_int k" using a assms(2) by (rule round_double_le_int)
  ultimately show ?thesis by simp
qed

lemma double_of_small:
  assumes "0 \<le> round_double x" and "round_double x \<le> 100"
  shows "double_of x = Fin (round_double x)"
  using assms by (simp add: double_of_def Let_def)

section \<open>The formatters\<close>

subsection \<open>formatTime\<close>

lemma NumberToString_of_nat:
  "NumberToString exo (of_nat n) = (if n < 2 ^ 53 then digits n else exo (of_nat n))"
proof -
  have "((of_nat n :: rat) < 2 ^ 53) = (n < 2 ^ 53)"
    by (metis of_nat_less_iff of_nat_numeral of_nat_power)
  then show ?thesis
    by (simp add: NumberToString_def is_integral_def)
qed

lemma js_rem_nonneg:
  fixes x :: rat
  assumes "0 \<le> x" "0 < n"
  shows "\<lfloor>js_rem x (of_int n)\<rfloor> = \<lfloor>x\<rfloor> mod n"
proof -
  have "0 \<le> x / of_int n" using assms by simp
  then have "js_rem x (of_int n) = x - of_int (n * (\<lfloor>x\<rfloor> div n))"
    using assms by (simp add: js_rem_def js_trunc_def floor_rat_div_int)
  then have "\<lfloor>js_rem x (of_int n)\<rfloor> = \<lfloor>x\<rfloor> - n * (\<lfloor>x\<rfloor> div n)"
    by (simp only: floor_diff_of_int)
  then show ?thesis by (simp add: minus_mult_div_eq_mod)
qed

lemma floor_quotient_of_remainder:
  fixes s :: rat
  assumes "0 \<le> s" and "0 < n" and "0 < k"
    and "s = of_int m / 2 ^ j" and "s < 2 ^ 53 / 2 ^ j"
  shows "\<lfloor>round_double (js_rem s (of_int n) / of_int k)\<rfloor> = \<lfloor>s\<rfloor> mod n div k"
proof -
  obtain m' where g: "js_rem s (of_int n) = of_int m' / 2 ^ j"
    using js_rem_grid(1) [OF assms(1,2,4)] by blast
  have r0: "0 \<le> js_rem s (of_int n)" using assms(1,2,4) by (rule js_rem_grid(2))
  have "js_rem s (of_int n) \<le> s" using assms(1,2,4) by (rule js_rem_grid(3))
  then have small: "js_rem s (of_int n) < 2 ^ 53 / 2 ^ j" using assms(5) by simp
  have "\<lfloor>round_double (js_rem s (of_int n) / of_int k)\<rfloor> = \<lfloor>js_rem s (of_int n) / of_int k\<rfloor>"
    using r0 assms(3) g small by (rule floor_round_double_div)
  also have "\<dots> = \<lfloor>js_rem s (of_int n)\<rfloor> div k" using assms(3) by (rule floor_rat_div_int)
  also have "\<dots> = \<lfloor>s\<rfloor> mod n div k" using assms(1,2) by (simp add: js_rem_nonneg)
  finally show ?thesis .
qed

lemma formatTime_parts:
  assumes "round_double seconds = seconds" and "0 \<le> seconds" and "seconds < 2 ^ 53"
  shows "formatTime exo seconds =
     NumberToString exo (of_int (\<lfloor>seconds\<rfloor> div 86400)) @ ''d '' @
     NumberToString exo (of_int (\<lfloor>seconds\<rfloor> mod 86400 div 3600)) @ ''h '' @
     NumberToString exo (of_int (\<lfloor>seconds\<rfloor> mod 3600 div 60)) @ ''m '' @
     NumberToString exo (of_int (\<lfloor>seconds\<rfloor> mod 60)) @ ''s''"
proof -
  obtain m j where g: "seconds = of_int m / 2 ^ j" "seconds < 2 ^ 53 / 2 ^ j"
    using double_grid [OF assms] by blast
  have "\<lfloor>round_double (seconds / of_int 86400)\<rfloor> = \<lfloor>seconds / of_int 86400\<rfloor>"
    using assms(2) _ g by (rule floor_round_double_div) simp
  also have "\<dots> = \<lfloor>seconds\<rfloor> div 86400" by (rule floor_rat_div_int) simp
  finally have d: "\<lfloor>round_double (seconds / (3600 * 24))\<rfloor> = \<lfloor>seconds\<rfloor> div 86400" by simp
  have h: "\<lfloor>round_double (js_rem seconds (3600 * 24) / 3600)\<rfloor> = \<lfloor>seconds\<rfloor> mod 86400 div 3600"
    using floor_quotient_of_remainder [OF assms(2) _ _ g, of 86400 3600] by simp
  have m: "\<lfloor>round_double (js_rem seconds 3600 / 60)\<rfloor> = \<lfloor>seconds\<rfloor> mod 3600 div 60"
    using floor_quotient_of_remainder [OF assms(2) _ _ g, of 3600 60] by simp
  have s: "\<lfloor>js_rem seconds 60\<rfloor> = \<lfloor>seconds\<rfloor> mod 60"
    using js_rem_nonneg [OF assms(2), of 60] by simp
  show ?thesis
    unfolding formatTime_def Let_def d h m s ..
qed

lemma formatTime_duration:
  assumes "round_double seconds = seconds" and "0 \<le> seconds" and "seconds < 2 ^ 53"
  shows "formatTime exo seconds = duration_by_floor_division seconds"
proof -
  define t where "t = nat \<lfloor>seconds\<rfloor>"
  have t: "\<lfloor>seconds\<rfloor> = int t" using assms(2) by (simp add: t_def)
  have "\<lfloor>seconds\<rfloor> < 2 ^ 53" using assms(3) by (simp add: floor_less_iff)
  then have t53: "t < 2 ^ 53" using t by simp
  have d: "int t div 86400 = int (t div (24 * 60 * 60))" by (simp add: zdiv_int)
  have hn: "t mod 86400 div 3600 = t div (60 * 60) mod 24"
    using mod_mult2_eq [of t 3600 24] by simp
  have mn: "t mod 3600 div 60 = t div 60 mod 60"
    using mod_mult2_eq [of t 60 60] by simp
  have h: "int t mod 86400 div 3600 = int (t div (60 * 60) mod 24)"
    using hn by (metis of_nat_numeral zdiv_int zmod_int)
  have m: "int t mod 3600 div 60 = int (t div 60 mod 60)"
    using mn by (metis of_nat_numeral zdiv_int zmod_int)
  have s: "int t mod 60 = int (t mod 60)" by (simp add: zmod_int)
  have big: "(60::nat) \<le> 2 ^ 53" by simp
  have "t div (60 * 60) mod 24 < 60" "t div 60 mod 60 < 60" "t mod 60 < 60"
    using mod_less_divisor [of 24 "t div (60 * 60)"] by simp_all
  then have hb: "t div (60 * 60) mod 24 < 2 ^ 53" "t div 60 mod 60 < 2 ^ 53" "t mod 60 < 2 ^ 53"
    using big by (blast intro: less_le_trans)+
  have "t div (24 * 60 * 60) \<le> t" by simp
  then have db: "t div (24 * 60 * 60) < 2 ^ 53" using t53 by (rule le_less_trans)
  show ?thesis
    unfolding formatTime_parts [OF assms] duration_by_floor_division_def Let_def t d h m s
      t_def [symmetric] of_int_of_nat_eq NumberToString_of_nat
    using hb db by simp
qed

lemma formatTime_one_day: "formatTime exo 90061 = ''1d 1h 1m 1s''"
proof -
  have "round_double (of_int 90061) = of_int 90061" by (rule round_double_of_int) simp
  then have "round_double 90061 = 90061" by simp
  then have "formatTime exo 90061 = duration_by_floor_division 90061"
    by (rule formatTime_duration) simp_all
  then show ?thesis
    by (simp add: duration_by_floor_division_def Let_def digits.simps digit_char_def)
qed

lemma formatTime_zero: "formatTime exo 0 = ''0d 0h 0m 0s''"
proof -
  have "round_double 0 = 0" by (simp add: round_double_def)
  then have "formatTime exo 0 = duration_by_floor_division 0"
    by (rule formatTime_duration) simp_all
  then show ?thesis
    by (simp add: duration_by_floor_division_def Let_def digits.simps digit_char_def)
qed

lemma half_second_double: "round_double (183723 / 2) = 183723 / 2"
proof -
  have "round_double (183723 / 2) =
      2 powi (16 - 52) * of_int (round_half_even ((183723 / 2) / 2 powi (16 - 52)))"
    by (rule round_double_at) simp_all
  then show ?thesis by (simp add: round_half_even_eval)
qed

text \<open>
  Claim C6, as amended. For every number of seconds that is a double, non-negative and
  below \<open>2^53\<close>, \<open>formatTime\<close> returns the text \<open><d>d <h>h <m>m <s>s\<close> whose components come
  from floor division of the whole seconds with 24 hours per day, 60 minutes per hour and
  60 seconds per minute, all four components being written even when zero; 90061 seconds
  give \<open>1d 1h 1m 1s\<close> and 0 seconds give \<open>0d 0h 0m 0s\<close>.
\<close>

theorem formatTime_floor_division:
  "(round_double seconds = seconds \<and> 0 \<le> seconds \<and> seconds < 2 ^ 53 \<longrightarrow>
      formatTime exo seconds = duration_by_floor_division seconds)
   \<and> formatTime exo 90061 = ''1d 1h 1m 1s''
   \<and> formatTime exo 0 = ''0d 0h 0m 0s''"
proof (intro conjI impI)
  assume "round_double seconds = seconds \<and> 0 \<le> seconds \<and> seconds < 2 ^ 53"
  then show "formatTime exo seconds = duration_by_floor_division seconds"
    by (simp add: formatTime_duration)
next
  show "formatTime exo 90061 = ''1d 1h 1m 1s''" by (rule formatTime_one_day)
next
  show "formatTime exo 0 = ''0d 0h 0m 0s''" by (rule formatTime_zero)
qed

theorem formatTime_floor_division_witness:
  "round_double (183723 / 2) = 183723 / 2
   \<and> (0::rat) \<le> 183723 / 2
   \<and> (183723 / 2 :: rat) < 2 ^ 53
   \<and> formatTime example_printer (183723 / 2) = ''1d 1h 31m 1s''
   \<and> duration_by_floor_division (183723 / 2) = ''1d 1h 31m 1s''"
proof -
  have d: "round_double (183723 / 2) = 183723 / 2" by (rule half_second_double)
  have nonneg: "(0::rat) \<le> 183723 / 2" and small: "(183723 / 2 :: rat) < 2 ^ 53"
    by simp_all
  have spec: "duration_by_floor_division (183723 / 2) = ''1d 1h 31m 1s''"
    by (simp add: duration_by_floor_division_def Let_def digits.simps digit_char_def
        floor_rat_numeral_div)
  from formatTime_floor_division [of "183723 / 2" example_printer] d nonneg small spec
  show ?thesis by simp
qed

lemma large_uptime_double: "round_double 1519964874237628672 = 1519964874237628672"
proof -
  have "round_double 1519964874237628672 =
      2 powi (60 - 52) * of_int (round_half_even (1519964874237628672 / 2 powi (60 - 52)))"
    by (rule round_double_at) simp_all
  then show ?thesis by (simp add: round_half_even_eval)
qed

lemma large_uptime_days:
  "round_double (1519964874237628672 / (3600 * 24)) = 17592186044417"
proof -
  have "round_double (1519964874237628672 / (3600 * 24)) =
      2 powi (44 - 52) *
      of_int (round_half_even ((1519964874237628672 / (3600 * 24)) / 2 powi (44 - 52)))"
    by (rule round_double_at) simp_all
  then show ?thesis by (simp add: round_half_even_eval)
qed

lemma large_uptime_remainders:
  "js_rem 1519964874237628672 (3600 * 24) = 86272"
  "js_rem 1519964874237628672 3600 = 3472"
  "js_rem 1519964874237628672 60 = 52"
  by (simp_all add: js_rem_def js_trunc_def floor_rat_numeral_div)

lemma large_uptime_hours:
  "round_double (86272 / 3600) = 3372695720941905 / 140737488355328"
proof -
  have "round_double (86272 / 3600) =
      2 powi (4 - 52) * of_int (round_half_even ((86272 / 3600) / 2 powi (4 - 52)))"
    by (rule round_double_at) simp_all
  then show ?thesis by (simp add: round_half_even_eval)
qed

lemma large_uptime_minutes:
  "round_double (3472 / 60) = 8144009326161647 / 140737488355328"
proof -
  have "round_double (3472 / 60) =
      2 powi (5 - 52) * of_int (round_half_even ((3472 / 60) / 2 powi (5 - 52)))"
    by (rule round_double_at) simp_all
  then show ?thesis by (simp add: round_half_even_eval)
qed

lemma formatTime_large_uptime:
  "formatTime example_printer 1519964874237628672 = ''17592186044417d 23h 57m 52s''"
  unfolding formatTime_def Let_def large_uptime_remainders large_uptime_days
    large_uptime_hours large_uptime_minutes
  by (simp add: NumberToString_def is_integral_def digits.simps digit_char_def
      floor_rat_numeral_div)

text \<open>
  Claim C6 as stated fails for a large number of seconds: 1519964874237628672 is a double,
  its quotient by 86400 lies less than a quarter below 17592186044417 and is rounded up
  to it, so \<open>formatTime\<close> writes one day more than the floor division gives.
\<close>

theorem formatTime_large_counterexample:
  "round_double 1519964874237628672 = 1519964874237628672
   \<and> formatTime example_printer 1519964874237628672 = ''17592186044417d 23h 57m 52s''
   \<and> duration_by_floor_division 1519964874237628672 = ''17592186044416d 23h 57m 52s''"
proof (intro conjI)
  show "round_double 1519964874237628672 = 1519964874237628672"
    by (rule large_uptime_double)
  show "formatTime example_printer 1519964874237628672 = ''17592186044417d 23h 57m 52s''"
    by (rule formatTime_large_uptime)
  show "duration_by_floor_division 1519964874237628672 = ''17592186044416d 23h 57m 52s''"
    by (simp add: duration_by_floor_division_def Let_def digits.simps digit_char_def)
qed

subsection \<open>formatBytes\<close>

lemmas formatBytes_eval =
  formatBytes_def floor_log_def compute_floorlog bind_err_def toFixed_def toFixed_finite_def
  insert_point_def sizes_def digit_char_def Let_def digits.simps floor_rat_numeral_div

text \<open>
  Claim C3. \<open>formatBytes(0)\<close> is \<open>0 Bytes\<close> (the special case of zero),
  \<open>formatBytes(1024)\<close> is \<open>1.00 KB\<close>, \<open>formatBytes(1536, 1)\<close> is \<open>1.5 KB\<close> and
  \<open>formatBytes(1073741824)\<close> is \<open>1.00 GB\<close>. The default of two decimals is passed where
  the call of the claim passes none.
\<close>

theorem formatBytes_values:
  "formatBytes exo 0 2 = Inr ''0 Bytes''
   \<and> formatBytes exo 1024 2 = Inr ''1.00 KB''
   \<and> formatBytes exo 1536 1 = Inr ''1.5 KB''
   \<and> formatBytes exo 1073741824 2 = Inr ''1.00 GB''"
proof (intro conjI)
  show "formatBytes exo 0 2 = Inr ''0 Bytes''"
    by (simp add: formatBytes_def)
  show "formatBytes exo 1024 2 = Inr ''1.00 KB''"
    by (simp add: formatBytes_eval)
  show "formatBytes exo 1536 1 = Inr ''1.5 KB''"
    by (simp add: formatBytes_eval)
  show "formatBytes exo 1073741824 2 = Inr ''1.00 GB''"
    by (simp add: formatBytes_eval)
qed

lemma formatBytes_default_total: "\<exists>s. formatBytes exo b 2 = Inr s"
  by (simp add: formatBytes_def toFixed_def bind_err_def Let_def)








section \<open>The collectors\<close>

subsection \<open>Memory\<close>

lemma toFixed_two_total: "\<exists>s. toFixed exo x 2 = Inr s"
  by (cases x) (simp_all add: toFixed_def)

lemma getMemoryInfo_fields:
  "\<exists>t f u. formatBytes exo (os_totalmem h) 2 = Inr t
     \<and> formatBytes exo (os_freemem h) 2 = Inr f
     \<and> toFixed exo (usage_number (os_freemem h) (os_totalmem h)) 2 = Inr u
     \<and> getMemoryInfo exo h =
         Inr (JObj [(''total'', JStr t), (''free'', JStr f), (''usage'', JStr (u @ ''%''))])"
proof -
  obtain t where t: "formatBytes exo (os_totalmem h) 2 = Inr t"
    using formatBytes_default_total by blast
  obtain f where f: "formatBytes exo (os_freemem h) 2 = Inr f"
    using formatBytes_default_total by blast
  obtain u where u: "toFixed exo (usage_number (os_freemem h) (os_totalmem h)) 2 = Inr u"
    using toFixed_two_total by blast
  show ?thesis
    by (simp add: getMemoryInfo_def t f u bind_err_def)
qed

text \<open>The usage number of a host whose free memory does not exceed its total memory.\<close>

lemma usage_number_accuracy:
  assumes "0 < t" and "f \<le> t"
  shows "\<exists>p. usage_number f t = Fin p \<and> 0 \<le> p \<and> p \<le> 100
           \<and> \<bar>p - (1 - of_nat f / of_nat t) * 100\<bar> \<le> 1 / 10 ^ 13"
proof -
  define a :: rat where "a = of_nat f / of_nat t"
  define q where "q = round_double a"
  define b where "b = 1 - q"
  define s where "s = round_double b"
  define c where "c = s * 100"
  define p where "p = round_double c"
  have tpos: "(0::rat) < of_nat t" using assms(1) by simp
  have "(of_nat f :: rat) \<le> of_nat t" using assms(2) by simp
  then have a1: "a \<le> 1" using tpos by (simp add: a_def)
  have a0: "0 \<le> a" by (simp add: a_def)
  have q01: "0 \<le> q \<and> q \<le> 1"
    unfolding q_def using round_double_unit [of a 1] a0 a1 by simp
  then have b01: "0 \<le> b" "b \<le> 1" by (simp_all add: b_def)
  have s01: "0 \<le> s \<and> s \<le> 1"
    unfolding s_def using round_double_unit [of b 1] b01 by simp
  then have c0: "0 \<le> c" "c \<le> 100" by (simp_all add: c_def)
  have p0: "0 \<le> p \<and> p \<le> 100"
    unfolding p_def using round_double_unit [of c 100] c0 by simp
  have dq: "double_of a = Fin q" unfolding q_def using q01 by (intro double_of_small) (simp_all add: q_def)
  have ds: "double_of b = Fin s" unfolding s_def using s01 by (intro double_of_small) (simp_all add: s_def)
  have dp: "double_of c = Fin p" unfolding p_def using p0 by (intro double_of_small) (simp_all add: p_def)
  have "js_div (Fin (of_nat f)) (Fin (of_nat t)) = Fin q"
    using assms(1) dq by (simp add: a_def)
  then have u: "usage_number f t = Fin p"
    unfolding usage_number_def using ds dp by (simp add: b_def c_def)
  have eq: "\<bar>q - a\<bar> \<le> 1 / 2 ^ 53 + 1 / 2 ^ 61"
  proof -
    have "\<bar>q - a\<bar> \<le> \<bar>a\<bar> / 2 ^ 53 + 1 / 2 ^ 61" unfolding q_def by (rule round_double_accuracy)
    moreover have "\<bar>a\<bar> / 2 ^ 53 \<le> 1 / 2 ^ 53" using a0 a1 by (simp add: divide_right_mono)
    ultimately show ?thesis by linarith
  qed
  have es: "\<bar>s - b\<bar> \<le> 1 / 2 ^ 53 + 1 / 2 ^ 61"
  proof -
    have "\<bar>s - b\<bar> \<le> \<bar>b\<bar> / 2 ^ 53 + 1 / 2 ^ 61" unfolding s_def by (rule round_double_accuracy)
    moreover have "\<bar>b\<bar> / 2 ^ 53 \<le> 1 / 2 ^ 53" using b01 by (simp add: divide_right_mono)
    ultimately show ?thesis by linarith
  qed
  have ep: "\<bar>p - c\<bar> \<le> 100 / 2 ^ 53 + 1 / 2 ^ 61"
  proof -
    have "\<bar>p - c\<bar> \<le> \<bar>c\<bar> / 2 ^ 53 + 1 / 2 ^ 61" unfolding p_def by (rule round_double_accuracy)
    moreover have "\<bar>c\<bar> / 2 ^ 53 \<le> 100 / 2 ^ 53" using c0 by (simp add: divide_right_mono)
    ultimately show ?thesis by linarith
  qed
  have "p - (1 - a) * 100 = (p - c) + 100 * (s - b) - 100 * (q - a)"
    by (simp add: c_def b_def algebra_simps)
  moreover have "\<bar>(p - c) + 100 * (s - b) - 100 * (q - a)\<bar>
      \<le> \<bar>p - c\<bar> + \<bar>100 * (s - b)\<bar> + \<bar>100 * (q - a)\<bar>"
    by (rule abs_triangle_three)
  moreover have "\<bar>100 * (s - b)\<bar> = 100 * \<bar>s - b\<bar>" "\<bar>100 * (q - a)\<bar> = 100 * \<bar>q - a\<bar>"
    by (simp_all only: abs_mult abs_numeral)
  ultimately have "\<bar>p - (1 - a) * 100\<bar> \<le> \<bar>p - c\<bar> + 100 * \<bar>s - b\<bar> + 100 * \<bar>q - a\<bar>"
    by (simp only:)
  also have "\<dots> \<le> (100 / 2 ^ 53 + 1 / 2 ^ 61) + 100 * (1 / 2 ^ 53 + 1 / 2 ^ 61)
      + 100 * (1 / 2 ^ 53 + 1 / 2 ^ 61)"
    using eq es ep by (intro add_mono mult_left_mono) simp_all
  also have "\<dots> \<le> 1 / 10 ^ 13" by simp
  finally have "\<bar>p - (1 - a) * 100\<bar> \<le> 1 / 10 ^ 13" .
  with u p0 show ?thesis unfolding a_def by blast
qed

lemma quarter_free_quotient: "round_double (250 / 1000) = 1 / 4"
proof -
  have "round_double (250 / 1000) =
      2 powi (- 2 - 52) * of_int (round_half_even ((250 / 1000) / 2 powi (- 2 - 52)))"
    by (rule round_double_at) simp_all
  then show ?thesis by (simp add: round_half_even_eval)
qed

lemma quarter_free_difference: "round_double (1 - 1 / 4) = 3 / 4"
proof -
  have "round_double (1 - 1 / 4) =
      2 powi (- 1 - 52) * of_int (round_half_even ((1 - 1 / 4) / 2 powi (- 1 - 52)))"
    by (rule round_double_at) simp_all
  then show ?thesis by (simp add: round_half_even_eval)
qed

lemma quarter_free_product: "round_double (3 / 4 * 100) = 75"
proof -
  have "round_double (3 / 4 * 100) =
      2 powi (6 - 52) * of_int (round_half_even ((3 / 4 * 100) / 2 powi (6 - 52)))"
    by (rule round_double_at) simp_all
  then show ?thesis by (simp add: round_half_even_eval)
qed

lemma usage_number_quarter_free: "usage_number 250 1000 = Fin 75"
proof -
  have "js_div (Fin 250) (Fin 1000) = double_of (250 / 1000)" by simp
  also have "\<dots> = Fin (1 / 4)" unfolding double_of_def Let_def quarter_free_quotient by simp
  finally have d: "js_div (Fin 250) (Fin 1000) = Fin (1 / 4)" .
  have s: "js_sub (Fin 1) (Fin (1 / 4)) = Fin (3 / 4)"
    unfolding js_sub.simps double_of_def Let_def quarter_free_difference by simp
  have m: "js_mul (Fin (3 / 4)) (Fin 100) = Fin 75"
    unfolding js_mul.simps double_of_def Let_def quarter_free_product by simp
  show ?thesis unfolding usage_number_def of_nat_numeral d s m ..
qed

lemma large_host_quotient:
  "round_double (3315633605611 / 5510901031515) = 2709590715807459 / 4503599627370496"
proof -
  have "round_double (3315633605611 / 5510901031515) =
      2 powi (- 1 - 52) *
      of_int (round_half_even ((3315633605611 / 5510901031515) / 2 powi (- 1 - 52)))"
    by (rule round_double_at) simp_all
  then show ?thesis by (simp add: round_half_even_eval)
qed

lemma large_host_difference:
  "round_double (1 - 2709590715807459 / 4503599627370496) =
     1794008911563037 / 4503599627370496"
proof -
  have "round_double (1 - 2709590715807459 / 4503599627370496) =
      2 powi (- 2 - 52) *
      of_int (round_half_even ((1 - 2709590715807459 / 4503599627370496) / 2 powi (- 2 - 52)))"
    by (rule round_double_at) simp_all
  then show ?thesis by (simp add: round_half_even_eval)
qed

lemma large_host_product:
  "round_double (1794008911563037 / 4503599627370496 * 100) =
     5606277848634491 / 140737488355328"
proof -
  have "round_double (1794008911563037 / 4503599627370496 * 100) =
      2 powi (5 - 52) *
      of_int (round_half_even ((1794008911563037 / 4503599627370496 * 100) / 2 powi (5 - 52)))"
    by (rule round_double_at) simp_all
  then show ?thesis by (simp add: round_half_even_eval)
qed

lemma usage_number_large_host:
  "usage_number 3315633605611 5510901031515 = Fin (5606277848634491 / 140737488355328)"
proof -
  have "js_div (Fin 3315633605611) (Fin 5510901031515) =
      double_of (3315633605611 / 5510901031515)"
    by simp
  also have "\<dots> = Fin (2709590715807459 / 4503599627370496)"
    unfolding double_of_def Let_def large_host_quotient by simp
  finally have d: "js_div (Fin 3315633605611) (Fin 5510901031515) =
      Fin (2709590715807459 / 4503599627370496)" .
  have s: "js_sub (Fin 1) (Fin (2709590715807459 / 4503599627370496)) =
      Fin (1794008911563037 / 4503599627370496)"
    unfolding js_sub.simps double_of_def Let_def large_host_difference by simp
  have m: "js_mul (Fin (1794008911563037 / 4503599627370496)) (Fin 100) =
      Fin (5606277848634491 / 140737488355328)"
    unfolding js_mul.simps double_of_def Let_def large_host_product by simp
  show ?thesis unfolding usage_number_def of_nat_numeral d s m ..
qed

lemma hundredths_close:
  assumes "0 \<le> p" and "0 \<le> x" and "\<bar>p - x\<bar> \<le> 1 / 10 ^ 13"
  shows "hundredths p = hundredths x \<or> hundredths p = hundredths x + 1
     \<or> hundredths p + 1 = hundredths x"
proof -
  define a where "a = p * 100 + 1 / 2"
  define b where "b = x * 100 + 1 / 2"
  have a0: "0 \<le> a" and b0: "0 \<le> b" using assms(1,2) by (simp_all add: a_def b_def)
  have "\<bar>a - b\<bar> = 100 * \<bar>p - x\<bar>" by (simp add: a_def b_def abs_if)
  also have "\<dots> \<le> 100 * (1 / 10 ^ 13)" using assms(3) by (intro mult_left_mono) simp_all
  also have "\<dots> < 1" by simp
  finally have near: "\<bar>a - b\<bar> < 1" .
  from near have n: "a < b + 1" "b < a + 1" by linarith+
  have "a \<le> b + 1" "b \<le> a + 1" using n by simp_all
  then have "\<lfloor>a\<rfloor> \<le> \<lfloor>b + 1\<rfloor>" "\<lfloor>b\<rfloor> \<le> \<lfloor>a + 1\<rfloor>"
    by (simp_all only: floor_mono)
  then have "\<lfloor>a\<rfloor> < \<lfloor>b\<rfloor> + 2" "\<lfloor>b\<rfloor> < \<lfloor>a\<rfloor> + 2" by simp_all
  moreover have "0 \<le> \<lfloor>a\<rfloor>" "0 \<le> \<lfloor>b\<rfloor>" using a0 b0 by simp_all
  ultimately have "nat \<lfloor>a\<rfloor> = nat \<lfloor>b\<rfloor> \<or> nat \<lfloor>a\<rfloor> = nat \<lfloor>b\<rfloor> + 1 \<or> nat \<lfloor>a\<rfloor> + 1 = nat \<lfloor>b\<rfloor>"
    by linarith
  then show ?thesis
    using assms(1,2) by (simp only: hundredths_def a_def b_def abs_of_nonneg)
qed

text \<open>
  Claim C4, as amended. The memory snapshot has exactly the three fields \<open>total\<close>, \<open>free\<close>
  and \<open>usage\<close>, each a string: \<open>total\<close> and \<open>free\<close> are the renderings of the host's total
  and free memory by \<open>formatBytes\<close> with two decimals, and \<open>usage\<close> is the usage number
  \<^verbatim>\<open>(1 - os.freemem() / os.totalmem()) * 100\<close> as \<^verbatim>\<open>toFixed(2)\<close> writes it, followed by the
  percent sign. The snapshot holds no byte count as an integer.
\<close>

theorem memory_snapshot_strings:
  "\<exists>t f u. formatBytes exo (os_totalmem h) 2 = Inr t
     \<and> formatBytes exo (os_freemem h) 2 = Inr f
     \<and> toFixed exo (usage_number (os_freemem h) (os_totalmem h)) 2 = Inr u
     \<and> getMemoryInfo exo h =
         Inr (JObj [(''total'', JStr t), (''free'', JStr f), (''usage'', JStr (u @ ''%''))])
     \<and> \<not> integer_field
           (JObj [(''total'', JStr t), (''free'', JStr f), (''usage'', JStr (u @ ''%''))])
           ''total''
     \<and> \<not> integer_field
           (JObj [(''total'', JStr t), (''free'', JStr f), (''usage'', JStr (u @ ''%''))])
           ''free''"
proof -
  obtain t f u where "formatBytes exo (os_totalmem h) 2 = Inr t"
     "formatBytes exo (os_freemem h) 2 = Inr f"
     "toFixed exo (usage_number (os_freemem h) (os_totalmem h)) 2 = Inr u"
     "getMemoryInfo exo h =
         Inr (JObj [(''total'', JStr t), (''free'', JStr f), (''usage'', JStr (u @ ''%''))])"
    using getMemoryInfo_fields by blast
  then show ?thesis by (simp add: integer_field_def)
qed

lemma getMemoryInfo_example_host:
  "getMemoryInfo exo example_host =
     Inr (JObj [(''total'', JStr ''1000.00 Bytes''),
                (''free'', JStr ''250.00 Bytes''),
                (''usage'', JStr ''75.00%'')])"
  by (simp add: getMemoryInfo_def example_host_def usage_number_quarter_free formatBytes_eval)

text \<open>
  Claim C4 as stated fails on the example host: the fields \<open>total\<close> and \<open>free\<close> are the
  texts \<open>1000.00 Bytes\<close> and \<open>250.00 Bytes\<close>, not the integers 1000 and 250.
\<close>

theorem memory_snapshot_counterexample:
  "getMemoryInfo example_printer example_host =
     Inr (JObj [(''total'', JStr ''1000.00 Bytes''),
                (''free'', JStr ''250.00 Bytes''),
                (''usage'', JStr ''75.00%'')])
   \<and> \<not> integer_field (JObj [(''total'', JStr ''1000.00 Bytes''),
                (''free'', JStr ''250.00 Bytes''),
                (''usage'', JStr ''75.00%'')]) ''total''
   \<and> \<not> integer_field (JObj [(''total'', JStr ''1000.00 Bytes''),
                (''free'', JStr ''250.00 Bytes''),
                (''usage'', JStr ''75.00%'')]) ''free''"
  by (simp add: getMemoryInfo_example_host integer_field_def)

text \<open>
  Claim C5, as amended. For a host with total memory \<open>0 < T < 2^53\<close> and free memory
  \<open>F \<le> T\<close>, the field \<open>usage\<close> of the memory snapshot is the double \<open>p\<close> that the source
  computes for \<open>(1 - F / T) * 100\<close>, rendered with exactly two decimal places and followed
  by the percent sign. The double lies within \<open>10^(-13)\<close> of the exact value; the digits
  printed are the hundredths nearest to the double, so they are those of the exact value
  or one hundredth beside them. For \<open>T = 1000\<close> and \<open>F = 250\<close> the field is \<open>75.00%\<close>.
\<close>

theorem memory_usage_percentage:
  assumes "0 < os_totalmem h" and "os_freemem h \<le> os_totalmem h"
    and "os_totalmem h < 2 ^ 53"
  shows "\<exists>m p. getMemoryInfo exo h = Inr m
     \<and> usage_number (os_freemem h) (os_totalmem h) = Fin p
     \<and> \<bar>p - (1 - of_nat (os_freemem h) / of_nat (os_totalmem h)) * 100\<bar> \<le> 1 / 10 ^ 13
     \<and> GetV m ''usage'' = Inr (JStr (two_decimal_places p @ ''%''))
     \<and> \<bar>of_nat (hundredths p) / 100 - \<bar>p\<bar>\<bar> \<le> 1 / 200
     \<and> (hundredths p = hundredths ((1 - of_nat (os_freemem h) / of_nat (os_totalmem h)) * 100)
        \<or> hundredths p =
            hundredths ((1 - of_nat (os_freemem h) / of_nat (os_totalmem h)) * 100) + 1
        \<or> hundredths p + 1 =
            hundredths ((1 - of_nat (os_freemem h) / of_nat (os_totalmem h)) * 100))
     \<and> (os_totalmem h = 1000 \<and> os_freemem h = 250 \<longrightarrow>
          GetV m ''usage'' = Inr (JStr ''75.00%''))"
proof -
  let ?x = "(1 - of_nat (os_freemem h) / of_nat (os_totalmem h)) * 100 :: rat"
  obtain p where un: "usage_number (os_freemem h) (os_totalmem h) = Fin p"
    and p0: "0 \<le> p" and p100: "p \<le> 100" and near: "\<bar>p - ?x\<bar> \<le> 1 / 10 ^ 13"
    using usage_number_accuracy [OF assms(1,2)] by blast
  have "(of_nat (os_freemem h) :: rat) \<le> of_nat (os_totalmem h)"
    using assms(2) by (simp only: of_nat_le_iff)
  then have "(of_nat (os_freemem h) :: rat) / of_nat (os_totalmem h) \<le> 1"
    using assms(1) by (simp add: pos_divide_le_eq)
  then have "0 \<le> 1 - (of_nat (os_freemem h) :: rat) / of_nat (os_totalmem h)" by simp
  then have x0: "0 \<le> ?x" by (rule mult_nonneg_nonneg) simp
  have mag: "\<bar>p\<bar> < 10 ^ 21" using p0 p100 by simp
  have "toFixed exo (Fin p) 2 = Inr (two_decimal_places p)"
    using toFixed_finite_two [OF mag] by (simp add: toFixed_def)
  then have fixed: "toFixed exo (usage_number (os_freemem h) (os_totalmem h)) 2 =
          Inr (two_decimal_places p)"
    by (simp only: un)
  obtain t f u where
     u: "toFixed exo (usage_number (os_freemem h) (os_totalmem h)) 2 = Inr u"
     and m: "getMemoryInfo exo h =
         Inr (JObj [(''total'', JStr t), (''free'', JStr f), (''usage'', JStr (u @ ''%''))])"
    using getMemoryInfo_fields by blast
  from u fixed have ueq: "u = two_decimal_places p" by simp
  let ?m = "JObj [(''total'', JStr t), (''free'', JStr f), (''usage'', JStr (u @ ''%''))]"
  have g: "GetV ?m ''usage'' = Inr (JStr (two_decimal_places p @ ''%''))"
    by (simp add: ueq)
  have example: "os_totalmem h = 1000 \<and> os_freemem h = 250 \<longrightarrow>
      GetV ?m ''usage'' = Inr (JStr ''75.00%'')"
  proof
    assume "os_totalmem h = 1000 \<and> os_freemem h = 250"
    then have "p = 75" using un by (simp add: usage_number_quarter_free)
    then have "two_decimal_places p = ''75.00''"
      by (simp add: two_decimal_places_def hundredths_def Let_def digits.simps digit_char_def
          floor_rat_numeral_div)
    then show "GetV ?m ''usage'' = Inr (JStr ''75.00%'')" by (simp add: ueq)
  qed
  show ?thesis
    using m un near g hundredths_near [of p] hundredths_close [OF p0 x0 near] example
    by (intro exI [of _ ?m] exI [of _ p]) (simp only: simp_thms)
qed

theorem memory_usage_percentage_witness:
  "0 < os_totalmem example_host
   \<and> os_freemem example_host \<le> os_totalmem example_host
   \<and> os_totalmem example_host < 2 ^ 53
   \<and> (\<exists>m. getMemoryInfo example_printer example_host = Inr m
         \<and> GetV m ''usage'' = Inr (JStr ''75.00%''))"
proof -
  have a: "0 < os_totalmem example_host"
    and b: "os_freemem example_host \<le> os_totalmem example_host"
    and c: "os_totalmem example_host < 2 ^ 53"
    and d: "os_totalmem example_host = 1000 \<and> os_freemem example_host = 250"
    by (simp_all add: example_host_def)
  from memory_usage_percentage [OF a b c, of example_printer] a b c d
  show ?thesis by auto
qed

lemma getMemoryInfo_large_host:
  "getMemoryInfo exo (example_host\<lparr>os_totalmem := 5510901031515, os_freemem := 3315633605611\<rparr>) =
     Inr (JObj [(''total'', JStr ''5.01 TB''),
                (''free'', JStr ''3.02 TB''),
                (''usage'', JStr ''39.84%'')])"
  by (simp add: getMemoryInfo_def example_host_def usage_number_large_host formatBytes_eval)

text \<open>
  Claim C5 as stated fails on a host with 5510901031515 bytes of memory of which
  3315633605611 are free: \<open>(1 - F / T) * 100\<close> is below 39.835 and has the two decimal
  places 39.83, but the double that the source computes is above 39.835 and the field
  \<open>usage\<close> is \<open>39.84%\<close>.
\<close>

theorem memory_usage_rounding_counterexample:
  "getMemoryInfo example_printer
       (example_host\<lparr>os_totalmem := 5510901031515, os_freemem := 3315633605611\<rparr>) =
     Inr (JObj [(''total'', JStr ''5.01 TB''),
                (''free'', JStr ''3.02 TB''),
                (''usage'', JStr ''39.84%'')])
   \<and> two_decimal_places ((1 - 3315633605611 / 5510901031515) * 100) @ ''%'' = ''39.83%''"
proof (intro conjI)
  show "getMemoryInfo example_printer
       (example_host\<lparr>os_totalmem := 5510901031515, os_freemem := 3315633605611\<rparr>) =
     Inr (JObj [(''total'', JStr ''5.01 TB''),
                (''free'', JStr ''3.02 TB''),
                (''usage'', JStr ''39.84%'')])"
    by (rule getMemoryInfo_large_host)
  show "two_decimal_places ((1 - 3315633605611 / 5510901031515) * 100) @ ''%'' = ''39.83%''"
    by (simp add: two_decimal_places_def hundredths_def Let_def digits.simps digit_char_def
        floor_rat_numeral_div)
qed

subsection \<open>Process\<close>

lemma getProcessInfo_fields:
  "\<exists>rss heapTotal heapUsed ext.
     getProcessInfo exo h =
       Inr (JObj [(''pid'', JNum (Fin (of_nat (process_pid h)))),
                (''title'', JStr (process_title h)),
                (''nodeVersion'', JStr (process_version h)),
                (''uptime'', JStr (formatTime exo (process_uptime h))),
                (''memoryUsage'',
                   JObj [(''rss'', JStr rss),
                         (''heapTotal'', JStr heapTotal),
                         (''heapUsed'', JStr heapUsed),
                         (''external'', JStr ext)]),
                (''env'',
                   JObj [(''NODE_ENV'',
                          js_or (env_var h ''NODE_ENV'') (JStr ''Not set''))])])"
proof -
  obtain a where a: "formatBytes exo (memoryUsage_rss h) 2 = Inr a"
    using formatBytes_default_total by blast
  obtain b where b: "formatBytes exo (memoryUsage_heapTotal h) 2 = Inr b"
    using formatBytes_default_total by blast
  obtain c where c: "formatBytes exo (memoryUsage_heapUsed h) 2 = Inr c"
    using formatBytes_default_total by blast
  obtain d where d: "formatBytes exo (memoryUsage_external h) 2 = Inr d"
    using formatBytes_default_total by blast
  show ?thesis
    by (simp add: getProcessInfo_def a b c d bind_err_def)
qed

lemma falsy_env_var:
  "(\<not> truthy (env_var h name)) = (process_env h name = None \<or> process_env h name = Some [])"
  by (simp add: env_var_def split: option.splits)

text \<open>
  Claim C10. When \<^verbatim>\<open>NODE_ENV\<close> is set to the empty string, the process snapshot reports
  \<open>env.NODE_ENV\<close> as \<open>Not set\<close>: the empty string is falsy, and the default replaces
  every falsy value of the variable, not only the absent one.
\<close>

theorem NODE_ENV_default:
  "(process_env h ''NODE_ENV'' = Some [] \<longrightarrow> \<not> truthy (env_var h ''NODE_ENV''))
   \<and> (\<not> truthy (env_var h ''NODE_ENV'') \<longrightarrow>
        (\<exists>p env. getProcessInfo exo h = Inr p
           \<and> GetV p ''env'' = Inr env
           \<and> GetV env ''NODE_ENV'' = Inr (JStr ''Not set'')))"
proof (intro conjI impI)
  assume "process_env h ''NODE_ENV'' = Some []"
  then show "\<not> truthy (env_var h ''NODE_ENV'')" by (simp add: falsy_env_var)
next
  assume f: "\<not> truthy (env_var h ''NODE_ENV'')"
  obtain rss heapTotal heapUsed ext where
    "getProcessInfo exo h =
       Inr (JObj [(''pid'', JNum (Fin (of_nat (process_pid h)))),
                (''title'', JStr (process_title h)),
                (''nodeVersion'', JStr (process_version h)),
                (''uptime'', JStr (formatTime exo (process_uptime h))),
                (''memoryUsage'',
                   JObj [(''rss'', JStr rss),
                         (''heapTotal'', JStr heapTotal),
                         (''heapUsed'', JStr heapUsed),
                         (''external'', JStr ext)]),
                (''env'',
                   JObj [(''NODE_ENV'',
                          js_or (env_var h ''NODE_ENV'') (JStr ''Not set''))])])"
    using getProcessInfo_fields by blast
  with f show "\<exists>p env. getProcessInfo exo h = Inr p
           \<and> GetV p ''env'' = Inr env
           \<and> GetV env ''NODE_ENV'' = Inr (JStr ''Not set'')"
    by (simp add: js_or_def)
qed

theorem NODE_ENV_default_witness:
  "process_env example_host ''NODE_ENV'' = Some []
   \<and> \<not> truthy (env_var example_host ''NODE_ENV'')
   \<and> (\<exists>p env. getProcessInfo example_printer example_host = Inr p
           \<and> GetV p ''env'' = Inr env
           \<and> GetV env ''NODE_ENV'' = Inr (JStr ''Not set''))"
proof -
  have e: "process_env example_host ''NODE_ENV'' = Some []"
    by (simp add: example_host_def)
  from NODE_ENV_default [of example_host example_printer] e
  show ?thesis by simp
qed

section \<open>Geolocation and the request handler\<close>

lemma getGeolocation_rejected: "getGeolocation exo Rejected = sentinel"
  by (simp add: getGeolocation_def geo_try_def)

lemma getGeolocation_no_body:
  "data = JNull \<or> data = JUndefined \<Longrightarrow> getGeolocation exo (Fulfilled data) = sentinel"
  by (auto simp add: getGeolocation_def geo_try_def bind_err_def)

lemma getGeolocation_strings:
  assumes "GetV data ''city'' = Inr (JStr city)"
    and "GetV data ''region'' = Inr (JStr region)"
    and "GetV data ''country'' = Inr (JStr country)"
    and "GetV data ''loc'' = Inr loc"
  shows "getGeolocation exo (Fulfilled data) =
     JObj [(''location'', JStr (city @ '', '' @ region @ '', '' @ country)),
           (''coordinates'', loc)]"
  using assms by (simp add: getGeolocation_def geo_try_def bind_err_def)

lemma geo_bogon:
  "getGeolocation example_printer (Fulfilled bogon_body) =
     JObj [(''location'', JStr ''undefined, undefined, undefined''),
           (''coordinates'', JUndefined)]"
  by (simp add: getGeolocation_def geo_try_def bind_err_def bogon_body_def)

lemma getGeolocation_object: "\<exists>ps. getGeolocation exo ax = JObj ps"
  by (auto simp add: getGeolocation_def geo_try_def bind_err_def sentinel_def
      split: axios_result.splits sum.splits)

lemma getCpuInfo_object:
  assumes "os_cpus h \<noteq> []"
  shows "\<exists>ps. getCpuInfo h = Inr (JObj ps)"
  using assms by (simp add: getCpuInfo_def split: list.splits)

lemma serialize_undefined_iff: "serialize exo gap ind v = None \<longleftrightarrow> v = JUndefined"
  by (cases v) simp_all

lemma serialize_props_written:
  "serialize_props exo gap ind ps =
     map (\<lambda>p. QuoteJSONString (fst p) @ '':'' @ (if gap = [] then [] else '' '') @
               the (serialize exo gap ind (snd p)))
       (filter (\<lambda>p. snd p \<noteq> JUndefined) ps)"
proof (induction ps)
  case Nil
  show ?case by simp
next
  case (Cons p ps)
  show ?case
  proof (cases "snd p = JUndefined")
    case True
    then show ?thesis using Cons by simp
  next
    case False
    then obtain s where "serialize exo gap ind (snd p) = Some s"
      using serialize_undefined_iff by blast
    then show ?thesis using Cons False by simp
  qed
qed

lemma stringify_object: "\<exists>s. JSON_stringify exo space (JObj ps) = JStr s"
  by (simp add: JSON_stringify_def)

lemma api_response_shape:
  assumes "pathname_of (req_url req) = JStr ''/api''" and "os_cpus h \<noteq> []"
  shows "\<exists>cpu memory process payload.
     getCpuInfo h = Inr (JObj cpu)
     \<and> getMemoryInfo exo h = Inr (JObj memory)
     \<and> getProcessInfo exo h = Inr (JObj process)
     \<and> JSON_stringify exo 2
          (JObj [(''cpu'', JObj cpu),
                 (''memory'', JObj memory),
                 (''os'', getOsInfo exo h),
                 (''user'', getUserInfo h),
                 (''process'', JObj process),
                 (''network'', getNetworkInfo h),
                 (''geolocation'', getGeolocation exo ax)]) = JStr payload
     \<and> handler exo pathname_of h ax req =
          Inr \<lparr>statusCode = 200,
               headers = [(''Content-Type'', ''application/json'')],
               body = payload\<rparr>"
proof -
  obtain cpu where cpu: "getCpuInfo h = Inr (JObj cpu)"
    using getCpuInfo_object [OF assms(2)] by blast
  obtain memory where memory: "getMemoryInfo exo h = Inr (JObj memory)"
    using getMemoryInfo_fields [of exo h] by blast
  obtain process where process: "getProcessInfo exo h = Inr (JObj process)"
    using getProcessInfo_fields [of exo h] by blast
  let ?data = "JObj [(''cpu'', JObj cpu),
                 (''memory'', JObj memory),
                 (''os'', getOsInfo exo h),
                 (''user'', getUserInfo h),
                 (''process'', JObj process),
                 (''network'', getNetworkInfo h),
                 (''geolocation'', getGeolocation exo ax)]"
  obtain payload where payload: "JSON_stringify exo 2 ?data = JStr payload"
    using stringify_object by blast
  have "handler exo pathname_of h ax req =
          Inr \<lparr>statusCode = 200,
               headers = [(''Content-Type'', ''application/json'')],
               body = payload\<rparr>"
    unfolding handler_def Let_def
    using assms(1) by (simp add: cpu memory process bind_err_def payload)
  with cpu memory process payload show ?thesis by blast
qed

text \<open>
  Claim C7. When the call succeeds with a body whose \<^verbatim>\<open>city\<close>, \<^verbatim>\<open>region\<close> and
  \<^verbatim>\<open>country\<close> are strings, \<open>getGeolocation\<close> returns as \<open>location\<close> the three joined by a
  comma and a space, and as \<open>coordinates\<close> the \<^verbatim>\<open>loc\<close> of the body as it is.
\<close>

theorem geolocation_success:
  assumes "GetV data ''city'' = Inr (JStr city)"
    and "GetV data ''region'' = Inr (JStr region)"
    and "GetV data ''country'' = Inr (JStr country)"
    and "GetV data ''loc'' = Inr loc"
  shows "getGeolocation exo (Fulfilled data) =
     JObj [(''location'', JStr (city @ '', '' @ region @ '', '' @ country)),
           (''coordinates'', loc)]"
  using assms by (rule getGeolocation_strings)

theorem geolocation_success_witness:
  "GetV example_body ''city'' = Inr (JStr ''Mountain View'')
   \<and> GetV example_body ''region'' = Inr (JStr ''California'')
   \<and> GetV example_body ''country'' = Inr (JStr ''US'')
   \<and> GetV example_body ''loc'' = Inr (JStr ''37.4056,-122.0775'')
   \<and> getGeolocation example_printer (Fulfilled example_body) =
       JObj [(''location'', JStr ''Mountain View, California, US''),
             (''coordinates'', JStr ''37.4056,-122.0775'')]"
proof -
  have a: "GetV example_body ''city'' = Inr (JStr ''Mountain View'')"
    and b: "GetV example_body ''region'' = Inr (JStr ''California'')"
    and c: "GetV example_body ''country'' = Inr (JStr ''US'')"
    and d: "GetV example_body ''loc'' = Inr (JStr ''37.4056,-122.0775'')"
    by (simp_all add: example_body_def)
  from geolocation_success [OF a b c d, of example_printer] a b c d
  show ?thesis by simp
qed

lemma stringify_not_found:
  \<open>JSON_stringify exo 0 (JObj [(''error'', JStr ''Route not found'')]) =
     JStr ''{"error":"Route not found"}''\<close>
  by (simp add: JSON_stringify_def wrap_members_def QuoteJSONString_def quote_char_def)

text \<open>
  Claim C8. A request whose parsed pathname is neither \<open>/\<close> nor \<open>/api\<close> is answered, whatever
  its method, with status 404, the JSON content type and the body that serialises the
  object with the single key \<open>error\<close> and the value \<open>Route not found\<close>.
\<close>

theorem unknown_route:
  assumes "pathname_of (req_url req) \<noteq> JStr ''/''"
    and "pathname_of (req_url req) \<noteq> JStr ''/api''"
  shows \<open>handler exo pathname_of h ax req =
       Inr \<lparr>statusCode = 404,
            headers = [(''Content-Type'', ''application/json'')],
            body = ''{"error":"Route not found"}''\<rparr>
     \<and> JSON_stringify exo 0 (JObj [(''error'', JStr ''Route not found'')]) =
         JStr ''{"error":"Route not found"}''\<close>
  using assms by (simp add: handler_def Let_def stringify_not_found bind_err_def)

theorem unknown_route_witness:
  \<open>JStr (req_url \<lparr>req_method = ''DELETE'', req_url = ''/status''\<rparr>) \<noteq> JStr ''/''
   \<and> JStr (req_url \<lparr>req_method = ''DELETE'', req_url = ''/status''\<rparr>) \<noteq> JStr ''/api''
   \<and> handler example_printer JStr example_host Rejected
         \<lparr>req_method = ''DELETE'', req_url = ''/status''\<rparr> =
       Inr \<lparr>statusCode = 404,
            headers = [(''Content-Type'', ''application/json'')],
            body = ''{"error":"Route not found"}''\<rparr>\<close>
proof -
  have a: "JStr (req_url \<lparr>req_method = ''DELETE'', req_url = ''/status''\<rparr>) \<noteq> JStr ''/''"
    and b: "JStr (req_url \<lparr>req_method = ''DELETE'', req_url = ''/status''\<rparr>) \<noteq> JStr ''/api''"
    by simp_all
  from unknown_route
    [where pathname_of = JStr and req = "\<lparr>req_method = ''DELETE'', req_url = ''/status''\<rparr>"
       and h = example_host and exo = example_printer and ax = Rejected, OF a b] a b
  show ?thesis by simp
qed

text \<open>
  Claim C9, as amended. On a host that reports at least one core, a request to \<open>/api\<close> is
  answered, whatever its method, with status 200 and the JSON content type; the body is
  the serialisation of an object whose keys are exactly \<open>cpu\<close>, \<open>memory\<close>, \<open>os\<close>, \<open>user\<close>,
  \<open>process\<close>, \<open>network\<close> and \<open>geolocation\<close>, all of them written, and whose \<open>geolocation\<close>
  is the result of \<open>getGeolocation\<close>.
\<close>

theorem api_snapshot:
  assumes "pathname_of (req_url req) = JStr ''/api''" and "os_cpus h \<noteq> []"
  shows "\<exists>data payload.
     handler exo pathname_of h ax req =
       Inr \<lparr>statusCode = 200,
            headers = [(''Content-Type'', ''application/json'')],
            body = payload\<rparr>
     \<and> JSON_stringify exo 2 data = JStr payload
     \<and> written_keys data =
         [''cpu'', ''memory'', ''os'', ''user'', ''process'', ''network'', ''geolocation'']
     \<and> GetV data ''geolocation'' = Inr (getGeolocation exo ax)"
proof -
  obtain cpu memory process payload where
    "JSON_stringify exo 2
          (JObj [(''cpu'', JObj cpu),
                 (''memory'', JObj memory),
                 (''os'', getOsInfo exo h),
                 (''user'', getUserInfo h),
                 (''process'', JObj process),
                 (''network'', getNetworkInfo h),
                 (''geolocation'', getGeolocation exo ax)]) = JStr payload"
    and "handler exo pathname_of h ax req =
          Inr \<lparr>statusCode = 200,
               headers = [(''Content-Type'', ''application/json'')],
               body = payload\<rparr>"
    using assms api_response_shape [where pathname_of = pathname_of and req = req and h = h and exo = exo and ax = ax]
    by blast
  moreover obtain geo where "getGeolocation exo ax = JObj geo"
    using getGeolocation_object by blast
  ultimately show ?thesis
    by (intro exI [of _ "JObj [(''cpu'', JObj cpu),
                 (''memory'', JObj memory),
                 (''os'', getOsInfo exo h),
                 (''user'', getUserInfo h),
                 (''process'', JObj process),
                 (''network'', getNetworkInfo h),
                 (''geolocation'', getGeolocation exo ax)]"] exI [of _ payload])
       (simp add: written_keys_def getOsInfo_def getUserInfo_def getNetworkInfo_def)
qed

theorem api_snapshot_witness:
  "JStr (req_url \<lparr>req_method = ''POST'', req_url = ''/api''\<rparr>) = JStr ''/api''
   \<and> os_cpus example_host \<noteq> []
   \<and> (\<exists>data payload.
        handler example_printer JStr example_host Rejected
            \<lparr>req_method = ''POST'', req_url = ''/api''\<rparr> =
          Inr \<lparr>statusCode = 200,
               headers = [(''Content-Type'', ''application/json'')],
               body = payload\<rparr>
        \<and> JSON_stringify example_printer 2 data = JStr payload
        \<and> written_keys data =
            [''cpu'', ''memory'', ''os'', ''user'', ''process'', ''network'', ''geolocation'']
        \<and> GetV data ''geolocation'' = Inr (getGeolocation example_printer Rejected))"
proof -
  have p: "JStr (req_url \<lparr>req_method = ''POST'', req_url = ''/api''\<rparr>) = JStr ''/api''"
    by simp
  have c: "os_cpus example_host \<noteq> []" by (simp add: example_host_def)
  from api_snapshot
    [where pathname_of = JStr and req = "\<lparr>req_method = ''POST'', req_url = ''/api''\<rparr>"
       and h = example_host and exo = example_printer and ax = Rejected] p c
  show ?thesis by simp
qed

text \<open>
  Claim C9 as stated fails on a host that reports no core: \<^verbatim>\<open>os.cpus()[0]\<close> is undefined,
  reading its \<^verbatim>\<open>model\<close> throws a \<^verbatim>\<open>TypeError\<close>, the handler's promise is rejected and no
  response is sent.
\<close>

theorem api_no_cpu_counterexample:
  "handler example_printer JStr (example_host\<lparr>os_cpus := []\<rparr>) Rejected
       \<lparr>req_method = ''GET'', req_url = ''/api''\<rparr> = Inl TypeError"
  by (simp add: handler_def getCpuInfo_def getGeolocation_def geo_try_def bind_err_def
      example_host_def Let_def)

text \<open>
  Claim C1, as amended. When the outbound call is rejected (a network error, a status
  outside 2xx, a timeout reported as an error) or is fulfilled with data that is null or
  undefined, so that reading its fields throws, \<open>getGeolocation\<close> returns exactly the
  sentinel, and on a host that reports at least one core the response of \<open>/api\<close> has
  status 200 and embeds the sentinel values: no error of the geolocation call reaches the
  caller.
\<close>

theorem geolocation_failure_sentinel:
  "getGeolocation exo Rejected = sentinel
   \<and> getGeolocation exo (Fulfilled JNull) = sentinel
   \<and> getGeolocation exo (Fulfilled JUndefined) = sentinel
   \<and> (pathname_of (req_url req) = JStr ''/api'' \<and> os_cpus h \<noteq> []
        \<and> (ax = Rejected \<or> ax = Fulfilled JNull \<or> ax = Fulfilled JUndefined) \<longrightarrow>
       (\<exists>data payload.
          handler exo pathname_of h ax req =
            Inr \<lparr>statusCode = 200,
                 headers = [(''Content-Type'', ''application/json'')],
                 body = payload\<rparr>
          \<and> JSON_stringify exo 2 data = JStr payload
          \<and> GetV data ''geolocation'' =
              Inr (JObj [(''location'', JStr ''Location not found''),
                         (''coordinates'', JStr ''Not available'')])))"
proof (intro conjI impI)
  show "getGeolocation exo Rejected = sentinel" by (rule getGeolocation_rejected)
  show "getGeolocation exo (Fulfilled JNull) = sentinel" by (simp add: getGeolocation_no_body)
  show "getGeolocation exo (Fulfilled JUndefined) = sentinel"
    by (simp add: getGeolocation_no_body)
next
  assume a: "pathname_of (req_url req) = JStr ''/api'' \<and> os_cpus h \<noteq> []
        \<and> (ax = Rejected \<or> ax = Fulfilled JNull \<or> ax = Fulfilled JUndefined)"
  then have geo: "getGeolocation exo ax = sentinel"
    using getGeolocation_rejected getGeolocation_no_body by blast
  from a obtain cpu memory process payload where
    s: "JSON_stringify exo 2
          (JObj [(''cpu'', JObj cpu),
                 (''memory'', JObj memory),
                 (''os'', getOsInfo exo h),
                 (''user'', getUserInfo h),
                 (''process'', JObj process),
                 (''network'', getNetworkInfo h),
                 (''geolocation'', getGeolocation exo ax)]) = JStr payload"
    and r: "handler exo pathname_of h ax req =
          Inr \<lparr>statusCode = 200,
               headers = [(''Content-Type'', ''application/json'')],
               body = payload\<rparr>"
    using api_response_shape [where pathname_of = pathname_of and req = req and h = h and exo = exo and ax = ax]
    by blast
  show "\<exists>data payload.
          handler exo pathname_of h ax req =
            Inr \<lparr>statusCode = 200,
                 headers = [(''Content-Type'', ''application/json'')],
                 body = payload\<rparr>
          \<and> JSON_stringify exo 2 data = JStr payload
          \<and> GetV data ''geolocation'' =
              Inr (JObj [(''location'', JStr ''Location not found''),
                         (''coordinates'', JStr ''Not available'')])"
    using s r geo
    by (intro exI [of _ "JObj [(''cpu'', JObj cpu),
                 (''memory'', JObj memory),
                 (''os'', getOsInfo exo h),
                 (''user'', getUserInfo h),
                 (''process'', JObj process),
                 (''network'', getNetworkInfo h),
                 (''geolocation'', getGeolocation exo ax)]"] exI [of _ payload])
       (simp add: sentinel_def)
qed

theorem geolocation_failure_sentinel_witness:
  "JStr (req_url \<lparr>req_method = ''GET'', req_url = ''/api''\<rparr>) = JStr ''/api''
   \<and> os_cpus example_host \<noteq> []
   \<and> (\<exists>data payload.
          handler example_printer JStr example_host Rejected
              \<lparr>req_method = ''GET'', req_url = ''/api''\<rparr> =
            Inr \<lparr>statusCode = 200,
                 headers = [(''Content-Type'', ''application/json'')],
                 body = payload\<rparr>
          \<and> JSON_stringify example_printer 2 data = JStr payload
          \<and> GetV data ''geolocation'' =
              Inr (JObj [(''location'', JStr ''Location not found''),
                         (''coordinates'', JStr ''Not available'')]))"
proof -
  have p: "JStr (req_url \<lparr>req_method = ''GET'', req_url = ''/api''\<rparr>) = JStr ''/api''"
    by simp
  have c: "os_cpus example_host \<noteq> []" by (simp add: example_host_def)
  from geolocation_failure_sentinel
    [where pathname_of = JStr and req = "\<lparr>req_method = ''GET'', req_url = ''/api''\<rparr>"
       and h = example_host and exo = example_printer and ax = Rejected]
    p c
  show ?thesis by simp
qed

text \<open>
  Claim C1 as stated fails for a body without the fields: the call is fulfilled, nothing
  throws, and the result is built from undefined values instead of the sentinel.
\<close>

theorem geolocation_missing_fields_counterexample:
  "getGeolocation example_printer (Fulfilled bogon_body) =
     JObj [(''location'', JStr ''undefined, undefined, undefined''),
           (''coordinates'', JUndefined)]
   \<and> getGeolocation example_printer (Fulfilled bogon_body) \<noteq> sentinel"
  by (simp add: geo_bogon sentinel_def)

end
